theory Spec2Isabelle
  imports Complex_Main
begin

section \<open>Constants and configuration of \<open>lodopab_dataset.py\<close>\<close>

definition NUM_SAMPLES_PER_FILE :: int where
  "NUM_SAMPLES_PER_FILE = 128"

definition PHOTONS_PER_PIXEL :: real where
  "PHOTONS_PER_PIXEL = 4096"

definition ORIG_MIN_PHOTON_COUNT :: real where
  "ORIG_MIN_PHOTON_COUNT = 0.1"

text \<open>
  The exceptions of the module: \<open>IndexError\<close>, \<open>TypeError\<close>, \<open>ValueError\<close>, and
  \<open>OSError\<close> for a shard file that \<open>h5py.File\<close> cannot open.
\<close>

datatype error = IndexError | TypeError | ValueError | OSError

datatype part = Train | Validation | Test

text \<open>
  The attributes that \<open>LoDoPaBDataset.__init__\<close> sets and the accessors read.
  \<open>shape\<close> holds the number of values of one observation and of one ground truth
  (the arrays are kept flattened: \<open>1000 * 513\<close> and \<open>362 * 362\<close> values).
\<close>

record dataset =
  shape :: "nat \<times> nat"
  post_log :: bool
  min_photon_count :: "real option"
  train_len :: int
  validation_len :: int
  test_len :: int

definition init :: "string \<Rightarrow> real option \<Rightarrow> error + dataset" where
  "init observation_model mpc =
     (if observation_model = ''post-log'' \<or> observation_model = ''pre-log'' then
        Inr \<lparr> shape = (1000 * 513, 362 * 362),
              post_log = (observation_model = ''post-log''),
              min_photon_count =
                (case mpc of
                   None \<Rightarrow> None
                 | Some c \<Rightarrow> if c \<le> 1 then Some c else Some 1),
              train_len = 35820,
              validation_len = 3522,
              test_len = 3553 \<rparr>
      else Inl ValueError)"

text \<open>
  Modelled from the spec: \<open>get_len\<close> is a method of the base class \<open>Dataset\<close>, which
  is not among the sources. The spec gives it as \<open>get_length(partition) -> int\<close>, a
  fixed constant for each partition: the length attribute set by the constructor.
\<close>

fun get_len :: "dataset \<Rightarrow> part \<Rightarrow> int" where
  "get_len ds Train = train_len ds"
| "get_len ds Validation = validation_len ds"
| "get_len ds Test = test_len ds"


section \<open>Arrays and the observation transform\<close>

text \<open>
  An array of the shape of one sample is \<open>Single\<close>, a stack of samples along a new
  leading axis is \<open>Stacked\<close>. Only this outer structure of a numpy shape is kept:
  \<open>ElemShape\<close> stands for \<open>self.shape[0]\<close> and \<open>StackShape n\<close> for
  \<open>(n,) + self.shape[0]\<close>.
\<close>

datatype 'a buffer = Single "'a list" | Stacked "'a list list"

datatype array_shape = ElemShape | StackShape nat

fun shape_of :: "'a buffer \<Rightarrow> array_shape" where
  "shape_of (Single xs) = ElemShape"
| "shape_of (Stacked xss) = StackShape (length xss)"

text \<open>
  \<open>np.greater_equal(obs, thres0, out=mask)\<close>: the output operand is not broadcast, so
  the call raises \<open>ValueError\<close> unless \<open>mask\<close> has the shape of \<open>obs\<close>.
\<close>

definition greater_equal :: "real buffer \<Rightarrow> real \<Rightarrow> array_shape \<Rightarrow> error + bool buffer" where
  "greater_equal obs t mask_shape =
     (if shape_of obs = mask_shape then Inr (map_buffer (\<lambda>v. t \<le> v) obs)
      else Inl ValueError)"

text \<open>\<open>obs[mask] = c\<close>; a mask of another shape is an \<open>IndexError\<close>.\<close>

fun assign_masked :: "real buffer \<Rightarrow> bool buffer \<Rightarrow> real \<Rightarrow> error + real buffer" where
  "assign_masked (Single xs) (Single ms) c =
     Inr (Single (map2 (\<lambda>v m. if m then c else v) xs ms))"
| "assign_masked (Stacked xss) (Stacked mss) c =
     Inr (Stacked (map2 (\<lambda>xs ms. map2 (\<lambda>v m. if m then c else v) xs ms) xss mss))"
| "assign_masked obs msk c = Inl IndexError"

definition thres0 :: "real \<Rightarrow> real" where
  "thres0 MU_MAX =
     0.5 * (- ln (ORIG_MIN_PHOTON_COUNT / PHOTONS_PER_PIXEL) - ln (1 / PHOTONS_PER_PIXEL))
       / MU_MAX"

text \<open>
  \<open>__get_observation_trafo\<close>. The constant \<open>MU_MAX\<close> comes from
  \<open>dival.util.constants\<close>, which is not among the sources, and is a parameter here.
  The result is the closure \<open>observation_trafo\<close>; the in-place update of its argument
  is the returned buffer. Arithmetic is over the reals.
\<close>

definition get_observation_trafo ::
  "dataset \<Rightarrow> real \<Rightarrow> nat \<Rightarrow> real buffer \<Rightarrow> error + real buffer" where
  "get_observation_trafo ds MU_MAX num_samples =
     (if min_photon_count ds = None \<or> min_photon_count ds = Some ORIG_MIN_PHOTON_COUNT then
        (if post_log ds then
           (\<lambda>out. Inr out)
         else
           (\<lambda>obs. let obs = map_buffer (\<lambda>v. v * MU_MAX) obs
                  in Inr (map_buffer (\<lambda>v. exp (- v)) obs)))
      else
        (let mask_shape = (if num_samples = 1 then ElemShape else StackShape num_samples)
         in if post_log ds then
              (\<lambda>obs. case greater_equal obs (thres0 MU_MAX) mask_shape of
                        Inl e \<Rightarrow> Inl e
                      | Inr msk \<Rightarrow>
                          assign_masked obs msk
                            (- ln (the (min_photon_count ds) / PHOTONS_PER_PIXEL) / MU_MAX))
            else
              (\<lambda>obs. case greater_equal obs (thres0 MU_MAX) mask_shape of
                        Inl e \<Rightarrow> Inl e
                      | Inr msk \<Rightarrow>
                          (let obs = map_buffer (\<lambda>v. v * MU_MAX) obs;
                               obs = map_buffer (\<lambda>v. exp (- v)) obs
                           in assign_masked obs msk
                                (the (min_photon_count ds) / PHOTONS_PER_PIXEL)))))"


section \<open>Shard files\<close>

text \<open>
  A shard file \<open>{field}_{part}_{index:03d}.hdf5\<close> is named by its field, part and
  index; its dataset \<open>data\<close> is the list of its rows, one flattened sample each. The
  store maps a name to the content of the file, \<open>None\<close> when there is no such file.
\<close>

datatype field = Observation | GroundTruth

type_synonym sample = "real list"
type_synonym file_id = "field \<times> part \<times> int"
type_synonym store = "file_id \<Rightarrow> sample list option"

text \<open>
  Python's \<open>range(start, stop, step)\<close>: its length, its elements, and the two
  subscripts the code uses, \<open>range_[0]\<close> and \<open>range_[-1]\<close>, which raise
  \<open>IndexError\<close> on an empty range. A range cannot be built with step \<open>0\<close>.
\<close>

datatype py_range = Range (r_start: int) (r_stop: int) (r_step: int)

definition range_len :: "py_range \<Rightarrow> int" where
  "range_len r =
     (if r_step r > 0 \<and> r_start r < r_stop r then
        (r_stop r - r_start r - 1) div r_step r + 1
      else if r_step r < 0 \<and> r_stop r < r_start r then
        (r_start r - r_stop r - 1) div (- r_step r) + 1
      else 0)"

definition range_list :: "py_range \<Rightarrow> int list" where
  "range_list r = map (\<lambda>k. r_start r + int k * r_step r) [0..<nat (range_len r)]"

definition range_first :: "py_range \<Rightarrow> error + int" where
  "range_first r = (if range_len r = 0 then Inl IndexError else Inr (r_start r))"

definition range_last :: "py_range \<Rightarrow> error + int" where
  "range_last r =
     (if range_len r = 0 then Inl IndexError
      else Inr (r_start r + (range_len r - 1) * r_step r))"

text \<open>
  A slice \<open>(start, stop, step)\<close> with \<open>0 \<le> start\<close>, \<open>0 \<le> stop\<close> and \<open>1 \<le> step\<close>,
  the only slices the accessors build, selects from \<open>n\<close> rows the indices
  \<open>range(start, min(stop, n), step)\<close>.
\<close>

type_synonym py_slice = "int \<times> int \<times> int"

definition slice_indices :: "py_slice \<Rightarrow> nat \<Rightarrow> int list" where
  "slice_indices s n =
     (case s of (start, stop, step) \<Rightarrow>
        range_list (Range (min start (int n)) (min stop (int n)) step))"

text \<open>
  \<open>file['data'].read_direct(dest, source_sel, dest_sel)\<close>: the rows of the file that
  \<open>source_sel\<close> selects are written to the rows \<open>dest_sel = slice(a, b)\<close> of \<open>dest\<close>;
  h5py raises \<open>TypeError\<close> when the two selections differ in size. A selection of no
  rows writes nothing.
\<close>

definition select_rows :: "'a list \<Rightarrow> py_slice \<Rightarrow> 'a list" where
  "select_rows data source_sel =
     map (\<lambda>k. data ! nat k) (slice_indices source_sel (length data))"

definition read_direct ::
  "'a list \<Rightarrow> 'a list \<Rightarrow> py_slice \<Rightarrow> int \<times> int \<Rightarrow> error + 'a list" where
  "read_direct data dest source_sel dest_sel =
     (let rows = select_rows data source_sel;
          a = min (fst dest_sel) (int (length dest));
          b = min (snd dest_sel) (int (length dest))
      in if 0 \<le> a \<and> int (length rows) = max 0 (b - a) then
           Inr (take (nat a) dest @ rows @ drop (nat a + length rows) dest)
         else Inl TypeError)"


section \<open>The accessors\<close>

text \<open>
  One element of the parameter \<open>out\<close>: a bool, or an array to write to. The parameter
  itself is a pair of them, or \<open>None\<close> (the default).
\<close>

datatype 'a out_arg = Flag bool | Buf 'a

text \<open>
  Opening \<open>{field}_{part}_{file_index:03d}.hdf5\<close> and reading row \<open>index_in_file\<close> of
  it into \<open>np.asarray(buf)[np.newaxis]\<close>, a view of \<open>buf\<close> with one row.
\<close>

definition read_sample :: "store \<Rightarrow> file_id \<Rightarrow> int \<Rightarrow> sample \<Rightarrow> error + sample" where
  "read_sample st fid index_in_file buf =
     (case st fid of
        None \<Rightarrow> Inl OSError
      | Some data \<Rightarrow>
          (case read_direct data [buf] (index_in_file, index_in_file + 1, 1) (0, 1) of
             Inl e \<Rightarrow> Inl e
           | Inr dest \<Rightarrow> Inr (hd dest)))"

text \<open>
  \<open>get_sample\<close>. The result is the list of the shard files the call opened, in order,
  and the exception raised or the pair returned. A buffer passed in \<open>out\<close> is an
  array of the shape of one sample.
\<close>

definition get_sample ::
  "dataset \<Rightarrow> real \<Rightarrow> store \<Rightarrow> int \<Rightarrow> part \<Rightarrow> (sample out_arg \<times> sample out_arg) option
     \<Rightarrow> file_id list \<times> (error + real buffer option \<times> real buffer option)" where
  "get_sample ds MU_MAX st index part out =
     (let len_part = get_len ds part in
      if index \<ge> len_part \<or> index < - len_part then ([], Inl IndexError)
      else
        (let index = (if index < 0 then index + len_part else index) in
         (case out of
            None \<Rightarrow> ([], Inl TypeError)
          | Some (out_observation, out_ground_truth) \<Rightarrow>
              (let file_index = index div NUM_SAMPLES_PER_FILE;
                   index_in_file = index mod NUM_SAMPLES_PER_FILE;
                   obs = (case out_observation of
                            Flag b \<Rightarrow> (if b then Some (replicate (fst (shape ds)) 0) else None)
                          | Buf a \<Rightarrow> Some a);
                   gt = (case out_ground_truth of
                           Flag b \<Rightarrow> (if b then Some (replicate (snd (shape ds)) 0) else None)
                         | Buf a \<Rightarrow> Some a);
                   (log_obs, res_obs) =
                     (case obs of
                        None \<Rightarrow> ([], Inr None)
                      | Some buf \<Rightarrow>
                          ([(Observation, part, file_index)],
                           (case read_sample st (Observation, part, file_index)
                                   index_in_file buf of
                              Inl e \<Rightarrow> Inl e
                            | Inr row \<Rightarrow>
                                (case get_observation_trafo ds MU_MAX 1 (Single row) of
                                   Inl e \<Rightarrow> Inl e
                                 | Inr obs \<Rightarrow> Inr (Some obs)))))
               in (case res_obs of
                     Inl e \<Rightarrow> (log_obs, Inl e)
                   | Inr obs \<Rightarrow>
                       (case gt of
                          None \<Rightarrow> (log_obs, Inr (obs, None))
                        | Some buf \<Rightarrow>
                            (log_obs @ [(GroundTruth, part, file_index)],
                             (case read_sample st (GroundTruth, part, file_index)
                                     index_in_file buf of
                                Inl e \<Rightarrow> Inl e
                              | Inr row \<Rightarrow> Inr (obs, Some (Single row))))))))))"

text \<open>
  The key of \<open>get_samples\<close>: a \<open>slice\<close> (each of start, stop and step may be
  \<open>None\<close>), a \<open>range\<close>, or a value of another type.
\<close>

datatype key = SliceKey "int option" "int option" "int option" | RangeKey py_range | OtherKey

definition key_range :: "key \<Rightarrow> int \<Rightarrow> error + py_range" where
  "key_range k len_part =
     (case k of
        SliceKey start stop step \<Rightarrow>
          (let key_start = (case start of
                              None \<Rightarrow> 0
                            | Some s \<Rightarrow> if s \<ge> 0 then s else max 0 (len_part + s));
               key_stop = (case stop of
                             None \<Rightarrow> len_part
                           | Some s \<Rightarrow> if s \<ge> 0 then s else max 0 (len_part + s))
           in Inr (Range key_start key_stop
                     (case step of None \<Rightarrow> 1 | Some s \<Rightarrow> if s = 0 then 1 else s)))
      | RangeKey r \<Rightarrow> Inr r
      | OtherKey \<Rightarrow> Inl TypeError)"

text \<open>\<open>ceil(a / b)\<close> on integers.\<close>

definition ceil_div :: "int \<Rightarrow> int \<Rightarrow> int" where
  "ceil_div a b = - ((- a) div b)"

text \<open>
  The loop \<open>for i in range_files\<close> that computes \<open>slices_files\<close> and \<open>slices_data\<close>,
  with the shard size \<open>n\<close> for \<open>NUM_SAMPLES_PER_FILE\<close>; \<open>last_index\<close> is \<open>range_[-1]\<close>,
  \<open>file_first\<close> is \<open>range_files.start\<close>, \<open>file_last\<close> is \<open>range_files[-1]\<close>, and the
  final argument is \<open>data_count\<close>.
\<close>

fun slice_loop ::
  "int \<Rightarrow> py_range \<Rightarrow> int \<Rightarrow> int \<Rightarrow> int \<Rightarrow> int list \<Rightarrow> int \<Rightarrow> (py_slice \<times> (int \<times> int)) list" where
  "slice_loop n rng last_index file_first file_last [] data_count = []"
| "slice_loop n rng last_index file_first file_last (i # rest) data_count =
     (let start = (if i = file_first then r_start rng mod n
                   else (r_start rng - i * n) mod r_step rng);
          stop = (if i = file_last then last_index mod n + 1
                  else (let next_start = (r_start rng - (i + 1) * n) mod r_step rng
                        in (next_start - r_step rng) mod n + 1));
          s = (start, stop, r_step rng);
          len_slice = ceil_div (stop - start) (r_step rng)
      in (s, (data_count, data_count + len_slice))
           # slice_loop n rng last_index file_first file_last rest (data_count + len_slice))"

text \<open>
  The loop \<open>for i, slc_f, slc_d in zip(range_files, slices_files, slices_data)\<close> that
  opens one shard file after the other and reads from it into the array.
\<close>

fun read_files ::
  "(file_id \<Rightarrow> 'a list option) \<Rightarrow> field \<Rightarrow> part \<Rightarrow> (int \<times> py_slice \<times> (int \<times> int)) list
     \<Rightarrow> 'a list \<Rightarrow> file_id list \<times> (error + 'a list)" where
  "read_files st fld part [] arr = ([], Inr arr)"
| "read_files st fld part ((i, slc_f, slc_d) # rest) arr =
     (case st (fld, part, i) of
        None \<Rightarrow> ([(fld, part, i)], Inl OSError)
      | Some data \<Rightarrow>
          (case read_direct data arr slc_f slc_d of
             Inl e \<Rightarrow> ([(fld, part, i)], Inl e)
           | Inr arr' \<Rightarrow>
               (case read_files st fld part rest arr' of
                  (opened, res) \<Rightarrow> ((fld, part, i) # opened, res))))"

text \<open>
  The second half of \<open>get_samples\<close>, from the comment \<open># read data\<close> on;
  \<open>plan\<close> is \<open>zip(range_files, slices_files, slices_data)\<close>. \<open>np.empty\<close> leaves
  the new array uninitialised; it is filled with zeros here. A buffer passed in
  \<open>out\<close> is a stack of samples.
\<close>

definition read_samples ::
  "dataset \<Rightarrow> real \<Rightarrow> store \<Rightarrow> part \<Rightarrow> py_range \<Rightarrow> (int \<times> py_slice \<times> (int \<times> int)) list
     \<Rightarrow> sample list out_arg \<Rightarrow> sample list out_arg
     \<Rightarrow> file_id list \<times> (error + real buffer option \<times> real buffer option)" where
  "read_samples ds MU_MAX st part rng plan out_observation out_ground_truth =
     (let obs_arr =
            (case out_observation of
               Flag b \<Rightarrow>
                 (if b then
                    Some (replicate (nat (range_len rng)) (replicate (fst (shape ds)) 0))
                  else None)
             | Buf a \<Rightarrow> Some a);
          gt_arr =
            (case out_ground_truth of
               Flag b \<Rightarrow>
                 (if b then
                    Some (replicate (nat (range_len rng)) (replicate (snd (shape ds)) 0))
                  else None)
             | Buf a \<Rightarrow> Some a);
          (log_obs, res_obs) =
            (case obs_arr of
               None \<Rightarrow> ([], Inr None)
             | Some arr \<Rightarrow>
                 (case read_files st Observation part plan arr of
                    (opened, Inl e) \<Rightarrow> (opened, Inl e)
                  | (opened, Inr arr') \<Rightarrow>
                      (opened,
                       (case get_observation_trafo ds MU_MAX (length arr') (Stacked arr') of
                          Inl e \<Rightarrow> Inl e
                        | Inr obs \<Rightarrow> Inr (Some obs)))))
      in (case res_obs of
            Inl e \<Rightarrow> (log_obs, Inl e)
          | Inr obs \<Rightarrow>
              (case gt_arr of
                 None \<Rightarrow> (log_obs, Inr (obs, None))
               | Some arr \<Rightarrow>
                   (case read_files st GroundTruth part plan arr of
                      (opened, Inl e) \<Rightarrow> (log_obs @ opened, Inl e)
                    | (opened, Inr arr') \<Rightarrow>
                        (log_obs @ opened, Inr (obs, Some (Stacked arr')))))))"

text \<open>
  \<open>get_samples\<close>, up to the computation of the slices; the rest is \<open>read_samples\<close>.
\<close>

definition get_samples ::
  "dataset \<Rightarrow> real \<Rightarrow> store \<Rightarrow> key \<Rightarrow> part
     \<Rightarrow> (sample list out_arg \<times> sample list out_arg) option
     \<Rightarrow> file_id list \<times> (error + real buffer option \<times> real buffer option)" where
  "get_samples ds MU_MAX st k part out =
     (let len_part = get_len ds part in
      (case key_range k len_part of
         Inl e \<Rightarrow> ([], Inl e)
       | Inr rng \<Rightarrow>
           (if r_step rng < 0 then ([], Inl ValueError)
            else
              (case range_last rng of
                 Inl e \<Rightarrow> ([], Inl e)
               | Inr last_index \<Rightarrow>
                   (if last_index \<ge> len_part then ([], Inl IndexError)
                    else
                      (case range_first rng of
                         Inl e \<Rightarrow> ([], Inl e)
                       | Inr first_index \<Rightarrow>
                           (let file_first = first_index div NUM_SAMPLES_PER_FILE;
                                file_last = last_index div NUM_SAMPLES_PER_FILE;
                                range_files = [file_first..file_last]
                            in (case out of
                                  None \<Rightarrow> ([], Inl TypeError)
                                | Some (out_observation, out_ground_truth) \<Rightarrow>
                                    read_samples ds MU_MAX st part rng
                                      (zip range_files
                                         (slice_loop NUM_SAMPLES_PER_FILE rng last_index
                                            file_first file_last range_files 0))
                                      out_observation out_ground_truth))))))))"


section \<open>Stored data\<close>

text \<open>
  The sample of logical index \<open>x\<close> of a part, as the shard files hold it: row
  \<open>x mod 128\<close> of the file of index \<open>x div 128\<close>.
\<close>

definition stored_row :: "store \<Rightarrow> field \<Rightarrow> part \<Rightarrow> int \<Rightarrow> sample" where
  "stored_row st fld part x =
     (case st (fld, part, x div NUM_SAMPLES_PER_FILE) of
        None \<Rightarrow> []
      | Some data \<Rightarrow> data ! nat (x mod NUM_SAMPLES_PER_FILE))"

text \<open>
  The dataset is present: for both fields, each part is split into files of 128 rows,
  numbered from 0, the last file holding the remaining rows.
\<close>

definition store_wf :: "dataset \<Rightarrow> store \<Rightarrow> bool" where
  "store_wf ds st \<longleftrightarrow>
     (\<forall>fld part i. 0 \<le> i \<and> i * NUM_SAMPLES_PER_FILE < get_len ds part \<longrightarrow>
        (\<exists>data. st (fld, part, i) = Some data \<and>
           int (length data) =
             min NUM_SAMPLES_PER_FILE (get_len ds part - i * NUM_SAMPLES_PER_FILE)))"

text \<open>
  The synthetic array \<open>0, \<dots>, len_part - 1\<close> cut into shards of \<open>n\<close> rows: row \<open>j\<close>
  of shard \<open>i\<close> holds its own logical index \<open>i * n + j\<close>.
\<close>

definition synthetic_store :: "int \<Rightarrow> int \<Rightarrow> file_id \<Rightarrow> int list option" where
  "synthetic_store n len_part fid =
     (case fid of (fld, part, i) \<Rightarrow>
        if 0 \<le> i \<and> i * n < len_part then
          Some (map (\<lambda>j. i * n + int j) [0..<nat (min n (len_part - i * n))])
        else None)"

text \<open>
  A dataset as the constructor builds it by default, and a store for it in which the
  sample of logical index \<open>x\<close> is the one-element array \<open>[x]\<close> (observation) or
  \<open>[- x]\<close> (ground truth).
\<close>

definition default_dataset :: dataset where
  "default_dataset =
     \<lparr> shape = (1000 * 513, 362 * 362), post_log = True, min_photon_count = None,
       train_len = 35820, validation_len = 3522, test_len = 3553 \<rparr>"

definition example_store :: store where
  "example_store fid =
     (case fid of (fld, part, i) \<Rightarrow>
        if 0 \<le> i \<and> i * 128 < get_len default_dataset part then
          Some (map (\<lambda>j. [if fld = Observation then real_of_int (i * 128 + int j)
                          else - real_of_int (i * 128 + int j)])
                  [0..<nat (min 128 (get_len default_dataset part - i * 128))])
        else None)"


section \<open>Arithmetic of ranges\<close>

lemma range_len_pos: "0 < st \<Longrightarrow> a < b \<Longrightarrow> range_len (Range a b st) = (b - a - 1) div st + 1"
  by (simp add: range_len_def)

lemma range_list_empty: "0 < st \<Longrightarrow> b \<le> a \<Longrightarrow> range_list (Range a b st) = []"
  by (simp add: range_list_def range_len_def)

lemma div_mult_le_int: "0 < (st::int) \<Longrightarrow> a div st * st \<le> a"
  by (metis minus_mod_eq_div_mult pos_mod_sign diff_le_eq le_add_same_cancel1)

lemma div_mult_gt_int: "0 < (st::int) \<Longrightarrow> a - st < a div st * st"
  by (metis minus_mod_eq_div_mult pos_mod_bound diff_strict_left_mono)

lemma range_list_set:
  assumes "0 < st"
  shows "set (range_list (Range a b st)) = {x. a \<le> x \<and> x < b \<and> st dvd (x - a)}"
proof (cases "a < b")
  case False
  then show ?thesis using assms by (auto simp: range_list_empty)
next
  case True
  let ?q = "(b - a - 1) div st"
  have len: "range_len (Range a b st) = ?q + 1"
    using assms True by (rule range_len_pos)
  have q0: "0 \<le> ?q"
    using True assms by (simp add: pos_imp_zdiv_nonneg_iff)
  show ?thesis
  proof (intro set_eqI iffI)
    fix x assume "x \<in> set (range_list (Range a b st))"
    then obtain k where k: "k < nat (?q + 1)" "x = a + int k * st"
      by (auto simp: range_list_def len)
    have "int k \<le> ?q" using k(1) q0 by linarith
    hence "int k * st \<le> ?q * st" using assms by (simp add: mult_right_mono)
    also have "\<dots> \<le> b - a - 1" using assms by (rule div_mult_le_int)
    finally have "x < b" using k(2) by linarith
    moreover have "a \<le> x" using k(2) assms by simp
    moreover have "st dvd (x - a)" using k(2) by simp
    ultimately show "x \<in> {x. a \<le> x \<and> x < b \<and> st dvd (x - a)}" by simp
  next
    fix x assume "x \<in> {x. a \<le> x \<and> x < b \<and> st dvd (x - a)}"
    hence x: "a \<le> x" "x < b" "st dvd (x - a)" by auto
    define j where "j = (x - a) div st"
    have xj: "x = a + j * st" using x(3) by (simp add: j_def)
    have j0: "0 \<le> j" using x(1) assms by (simp add: j_def pos_imp_zdiv_nonneg_iff)
    have "j \<le> ?q" unfolding j_def using x(2) assms by (intro zdiv_mono1) auto
    hence "nat j < nat (?q + 1)" using j0 by linarith
    moreover have "x = a + int (nat j) * st" using xj j0 by simp
    ultimately show "x \<in> set (range_list (Range a b st))"
      unfolding range_list_def len by (auto simp del: of_nat_nat intro!: image_eqI[where x="nat j"])
  qed
qed

lemma range_list_sorted:
  assumes "0 < st"
  shows "sorted_wrt (<) (range_list (Range a b st))"
  unfolding range_list_def sorted_wrt_map
  by (rule sorted_wrt_mono_rel[OF _ sorted_wrt_upt]) (use assms in simp)

lemma range_list_shift:
  "map (\<lambda>k. c + k) (range_list (Range a b st)) = range_list (Range (c + a) (c + b) st)"
  by (simp add: range_list_def range_len_def)

lemma length_range_list: "length (range_list r) = nat (range_len r)"
  by (simp add: range_list_def)

lemma ceil_div_range_len:
  assumes "0 < st" "a < b \<or> a - b < st"
  shows "ceil_div (b - a) st = range_len (Range a b st)"
proof (cases "a < b")
  case True
  define q where "q = (b - a - 1) div st"
  define r where "r = (b - a - 1) mod st"
  have d: "b - a - 1 = st * q + r" by (simp add: q_def r_def)
  have r: "0 \<le> r" "r < st" using assms(1) by (simp_all add: r_def)
  have "- (b - a) = st * (- q - 1) + (st - r - 1)" using d by (simp add: algebra_simps)
  hence "(- (b - a)) div st = - q - 1"
    using r by (intro int_div_pos_eq[where r="st - r - 1"]) auto
  thus ?thesis using True assms(1) by (simp add: ceil_div_def range_len_def q_def)
next
  case False
  hence "(a - b) div st = 0" using assms by (intro div_pos_pos_trivial) auto
  thus ?thesis using False assms(1) by (simp add: ceil_div_def range_len_def)
qed


lemma range_last_props:
  assumes "0 < st" "a0 < b0" "l = a0 + (range_len (Range a0 b0 st) - 1) * st"
  shows "a0 \<le> l" "l < b0" "st dvd (l - a0)"
    and "\<And>x. x < b0 \<Longrightarrow> st dvd (x - a0) \<Longrightarrow> x \<le> l"
proof -
  let ?q = "(b0 - a0 - 1) div st"
  have l: "l = a0 + ?q * st" using assms by (simp add: range_len_pos)
  have q0: "0 \<le> ?q" using assms by (simp add: pos_imp_zdiv_nonneg_iff)
  show "a0 \<le> l" using l q0 assms(1) by simp
  have "?q * st \<le> b0 - a0 - 1" using assms(1) by (rule div_mult_le_int)
  thus "l < b0" using l by linarith
  show "st dvd (l - a0)" using l by simp
  fix x assume x: "x < b0" "st dvd (x - a0)"
  have "(x - a0) div st \<le> ?q" using x(1) assms(1) by (intro zdiv_mono1) auto
  hence "(x - a0) div st * st \<le> ?q * st" using assms(1) by (simp add: mult_right_mono)
  moreover have "(x - a0) div st * st = x - a0" using x(2) by simp
  ultimately show "x \<le> l" using l by linarith
qed

lemma cong_ge_mod:
  assumes "0 < (st::int)" "st dvd (x - a0)" "c \<le> x"
  shows "c + (a0 - c) mod st \<le> x"
proof -
  have "(x - c) mod st = (a0 - c) mod st"
    using assms(2) by (metis diff_diff_eq2 diff_add_cancel mod_diff_cong dvd_imp_mod_0 mod_0 diff_zero mod_mod_trivial add.commute mod_add_self2 mod_eq_dvd_iff)
  moreover have "(x - c) mod st \<le> x - c" using assms(3) by (intro zmod_le_nonneg_dividend) simp
  ultimately show ?thesis by linarith
qed

lemma cong_mod_dvd:
  "(st::int) dvd (c + (a0 - c) mod st - a0)"
proof -
  have "c + (a0 - c) mod st - a0 = - ((a0 - c) div st * st)"
    by (simp add: algebra_simps minus_mod_eq_mult_div [symmetric])
  thus ?thesis by simp
qed


lemma div_bounds_int:
  assumes "0 < (n::int)"
  shows "a div n * n \<le> a" "a < (a div n + 1) * n"
proof -
  show "a div n * n \<le> a" using assms by (rule div_mult_le_int)
  have "a - n < a div n * n" using assms by (rule div_mult_gt_int)
  thus "a < (a div n + 1) * n" by (simp add: algebra_simps)
qed

lemma file_slice:
  assumes n: "0 < n" and st: "0 < st" and ab: "a0 < b0"
    and l: "l = a0 + (range_len (Range a0 b0 st) - 1) * st"
    and i: "a0 div n \<le> i" "i \<le> l div n"
  defines "sa \<equiv> (if i = a0 div n then a0 mod n else (a0 - i * n) mod st)"
    and "sb \<equiv> (if i = l div n then l mod n + 1
                else ((a0 - (i + 1) * n) mod st - st) mod n + 1)"
  shows "range_list (Range (i * n + sa) (i * n + sb) st) =
           filter (\<lambda>x. i * n \<le> x \<and> x < (i + 1) * n) (range_list (Range a0 b0 st))"
    and "0 \<le> sa" and "1 \<le> sb" and "sb \<le> n" and "sa < sb \<or> sa - sb < st"
    and "i = l div n \<Longrightarrow> i * n + sb = l + 1"
proof -
  note L = range_last_props[OF st ab l]
  show sa0: "0 \<le> sa" using n st by (simp add: sa_def)
  show sb1: "1 \<le> sb" using n by (simp add: sb_def)
  show sbn: "sb \<le> n" using n pos_mod_bound[of n] by (auto simp: sb_def intro: zless_imp_add1_zle)
  show last_eq: "i = l div n \<Longrightarrow> i * n + sb = l + 1" by (simp add: sb_def)
  have a0_lo: "a0 div n * n \<le> a0" and a0_hi: "a0 < (a0 div n + 1) * n"
    using div_bounds_int[OF n] by auto
  have l_lo: "l div n * n \<le> l" and l_hi: "l < (l div n + 1) * n"
    using div_bounds_int[OF n] by auto
  have in_lo: "i * n \<le> l"
  proof -
    have "i * n \<le> l div n * n" using i(2) n by (simp add: mult_right_mono)
    thus ?thesis using l_lo by linarith
  qed
  have dvd_sa: "st dvd (i * n + sa - a0)"
  proof (cases "i = a0 div n")
    case True
    hence "i * n + sa = a0" by (simp add: sa_def)
    thus ?thesis by simp
  next
    case False
    thus ?thesis using cong_mod_dvd[of st "i * n" a0] by (simp add: sa_def)
  qed
  have lower: "i * n + sa \<le> x \<longleftrightarrow> a0 \<le> x \<and> i * n \<le> x" if x: "st dvd (x - a0)" for x
  proof (cases "i = a0 div n")
    case True
    hence "i * n + sa = a0" by (simp add: sa_def)
    thus ?thesis using a0_lo True by auto
  next
    case False
    hence "a0 div n + 1 \<le> i" using i(1) by linarith
    hence "(a0 div n + 1) * n \<le> i * n" using n by (simp add: mult_right_mono)
    hence lt: "a0 < i * n" using a0_hi by linarith
    have sa: "sa = (a0 - i * n) mod st" using False by (simp add: sa_def)
    show ?thesis
    proof
      assume "i * n + sa \<le> x"
      thus "a0 \<le> x \<and> i * n \<le> x" using sa0 lt by linarith
    next
      assume "a0 \<le> x \<and> i * n \<le> x"
      thus "i * n + sa \<le> x" unfolding sa using cong_ge_mod[OF st x, of "i * n"] by simp
    qed
  qed
  have upper: "x < i * n + sb \<longleftrightarrow> x < b0 \<and> x < (i + 1) * n"
    if x: "st dvd (x - a0)" and xi: "i * n \<le> x" for x
  proof (cases "i = l div n")
    case True
    have e: "i * n + sb = l + 1" using True by (rule last_eq)
    show ?thesis
    proof
      assume "x < i * n + sb"
      thus "x < b0 \<and> x < (i + 1) * n" using e L(2) l_hi True by auto
    next
      assume "x < b0 \<and> x < (i + 1) * n"
      hence "x \<le> l" using L(4)[OF _ x] by simp
      thus "x < i * n + sb" using e by linarith
    qed
  next
    case False
    define c where "c = (i + 1) * n"
    define ns where "ns = (a0 - c) mod st"
    have ns: "0 \<le> ns" "ns < st" using st by (simp_all add: ns_def)
    have sb: "sb = (ns - st) mod n + 1" using False by (simp add: sb_def ns_def c_def)
    have "i + 1 \<le> l div n" using False i(2) by linarith
    hence "c \<le> l div n * n" unfolding c_def using n by (simp add: mult_right_mono)
    hence cl: "c \<le> l" using l_lo by linarith
    have cn: "c = i * n + n" by (simp add: c_def algebra_simps)
    show ?thesis
    proof
      assume "x < i * n + sb"
      hence "x < c" using sbn cn by linarith
      thus "x < b0 \<and> x < (i + 1) * n" using cl L(2) c_def by auto
    next
      assume "x < b0 \<and> x < (i + 1) * n"
      hence xc: "x < c" by (simp add: c_def)
      have "st dvd (c + ns - a0)" unfolding ns_def by (rule cong_mod_dvd)
      hence "st dvd ((c + ns - a0) - (x - a0))" using x by (rule dvd_diff)
      hence "st dvd (c + ns - x)" by (simp add: algebra_simps)
      moreover have "0 < c + ns - x" using xc ns by linarith
      ultimately have "st \<le> c + ns - x" by (rule zdvd_imp_le)
      hence xM: "x \<le> c + ns - st" by linarith
      have r: "0 \<le> ns - st + n" "ns - st + n < n" using xM xi cn ns by linarith+
      have "(ns - st) mod n = (ns - st + n) mod n" by simp
      also have "\<dots> = ns - st + n" using r by (rule mod_pos_pos_trivial)
      finally have "sb = ns - st + n + 1" using sb by simp
      thus "x < i * n + sb" using xM cn by linarith
    qed
  qed
  have "set (range_list (Range (i * n + sa) (i * n + sb) st)) =
        set (filter (\<lambda>x. i * n \<le> x \<and> x < (i + 1) * n) (range_list (Range a0 b0 st)))"
    (is "?A = ?B")
  proof (intro set_eqI iffI)
    fix x assume "x \<in> ?A"
    hence x: "i * n + sa \<le> x" "x < i * n + sb" "st dvd (x - (i * n + sa))"
      by (auto simp: range_list_set[OF st])
    have "st dvd ((x - (i * n + sa)) + (i * n + sa - a0))" using x(3) dvd_sa by (rule dvd_add)
    hence d: "st dvd (x - a0)" by (simp add: algebra_simps)
    have lo: "a0 \<le> x \<and> i * n \<le> x" using lower[OF d] x(1) by simp
    hence "x < b0 \<and> x < (i + 1) * n" using upper[OF d] x(2) by simp
    thus "x \<in> ?B" using lo d by (simp add: range_list_set[OF st])
  next
    fix x assume "x \<in> ?B"
    hence x: "a0 \<le> x" "x < b0" "st dvd (x - a0)" "i * n \<le> x" "x < (i + 1) * n"
      by (auto simp: range_list_set[OF st])
    have "st dvd ((x - a0) - (i * n + sa - a0))" using x(3) dvd_sa by (rule dvd_diff)
    hence d: "st dvd (x - (i * n + sa))" by (simp add: algebra_simps)
    have "i * n + sa \<le> x" using lower[OF x(3)] x by simp
    moreover have "x < i * n + sb" using upper[OF x(3) x(4)] x by simp
    ultimately show "x \<in> ?A" using d by (simp add: range_list_set[OF st])
  qed
  moreover have "sorted_wrt (<) (range_list (Range (i * n + sa) (i * n + sb) st))"
    using st by (rule range_list_sorted)
  moreover have "sorted_wrt (<) (filter (\<lambda>x. i * n \<le> x \<and> x < (i + 1) * n) (range_list (Range a0 b0 st)))"
    by (intro sorted_wrt_filter range_list_sorted st)
  ultimately show "range_list (Range (i * n + sa) (i * n + sb) st) =
           filter (\<lambda>x. i * n \<le> x \<and> x < (i + 1) * n) (range_list (Range a0 b0 st))"
    by (intro strict_sorted_equal) auto
  show "sa < sb \<or> sa - sb < st"
  proof (cases "i = a0 div n")
    case True
    hence e: "i * n + sa = a0" by (simp add: sa_def)
    have "a0 < i * n + sb" using upper[of a0] a0_lo a0_hi True ab by simp
    thus ?thesis using e by linarith
  next
    case False
    hence "sa < st" using st by (simp add: sa_def)
    thus ?thesis using sb1 by linarith
  qed
qed


section \<open>The read loop\<close>

lemma filter_sorted_split:
  fixes xs :: "int list"
  assumes "sorted xs" "a \<le> b"
  shows "filter (\<lambda>x. x < b) xs = filter (\<lambda>x. x < a) xs @ filter (\<lambda>x. a \<le> x \<and> x < b) xs"
  using assms
proof (induction xs)
  case Nil
  show ?case by simp
next
  case (Cons y ys)
  show ?case
  proof (cases "y < a")
    case True
    thus ?thesis using Cons by auto
  next
    case False
    hence "\<forall>x\<in>set (y # ys). \<not> x < a" using Cons.prems(1) by auto
    hence e: "filter (\<lambda>x. x < a) (y # ys) = []" by (simp only: filter_empty_conv) 
    have "filter (\<lambda>x. x < b) (y # ys) = filter (\<lambda>x. a \<le> x \<and> x < b) (y # ys)"
      using \<open>\<forall>x\<in>set (y # ys). \<not> x < a\<close> by (intro filter_cong) auto
    thus ?thesis using e by simp
  qed
qed

lemma range_len_nonneg: "0 < st \<Longrightarrow> 0 \<le> range_len (Range a b st)"
  by (simp add: range_len_def pos_imp_zdiv_nonneg_iff)

lemma slice_indices_clip:
  assumes "0 < st" "sb \<le> int L"
  shows "slice_indices (sa, sb, st) L = range_list (Range sa sb st)"
proof (cases "sa \<le> int L")
  case True
  thus ?thesis using assms by (simp add: slice_indices_def min_def)
next
  case False
  hence "range_list (Range (int L) sb st) = []" "range_list (Range sa sb st) = []"
    using assms by (simp_all add: range_list_empty)
  thus ?thesis using assms False by (simp add: slice_indices_def min_def)
qed

lemma read_direct_append:
  assumes "select_rows data s = rows" "length pre + length rows \<le> length arr0"
  shows "read_direct data (pre @ drop (length pre) arr0) s
           (int (length pre), int (length pre) + int (length rows)) =
         Inr ((pre @ rows) @ drop (length pre + length rows) arr0)"
  using assms by (simp add: read_direct_def Let_def min_def add.commute)


lemma read_files_plan:
  fixes S :: "file_id \<Rightarrow> 'a list option"
  assumes n: "0 < n" and st: "0 < st" and ab: "a0 < b0"
    and l: "l = a0 + (range_len (Range a0 b0 st) - 1) * st"
    and wf: "\<And>i. a0 div n \<le> i \<Longrightarrow> i \<le> l div n \<Longrightarrow>
               \<exists>data. S (fld, p, i) = Some data \<and>
                 (\<forall>x. i * n \<le> x \<and> x < (i + 1) * n \<and> x \<le> l \<longrightarrow>
                    nat (x - i * n) < length data \<and> data ! nat (x - i * n) = row x)"
    and len: "length arr0 = length (range_list (Range a0 b0 st))"
    and i: "a0 div n \<le> i" "i \<le> l div n + 1"
  shows "read_files S fld p
           (zip [i..l div n]
              (slice_loop n (Range a0 b0 st) l (a0 div n) (l div n) [i..l div n]
                 (int (length (filter (\<lambda>x. x < i * n) (range_list (Range a0 b0 st)))))))
           (map row (filter (\<lambda>x. x < i * n) (range_list (Range a0 b0 st)))
              @ drop (length (filter (\<lambda>x. x < i * n) (range_list (Range a0 b0 st)))) arr0) =
         (map (\<lambda>j. (fld, p, j)) [i..l div n], Inr (map row (range_list (Range a0 b0 st))))"
  using i
proof (induction "nat (l div n + 1 - i)" arbitrary: i)
  case 0
  let ?R = "range_list (Range a0 b0 st)"
  note L = range_last_props[OF st ab l]
  from 0 have i: "i = l div n + 1" by linarith
  have "l < i * n" using div_bounds_int(2)[OF n, of l] i by simp
  hence "\<forall>x\<in>set ?R. x < i * n" using L(4) by (fastforce simp: range_list_set[OF st])
  hence "filter (\<lambda>x. x < i * n) ?R = ?R" by (simp only: filter_True)
  moreover have "[i..l div n] = []" using i by simp
  ultimately show ?case using len by simp
next
  case (Suc k)
  let ?R = "range_list (Range a0 b0 st)"
  let ?fl = "l div n"
  let ?pre = "filter (\<lambda>x. x < i * n) ?R"
  let ?seg = "filter (\<lambda>x. i * n \<le> x \<and> x < (i + 1) * n) ?R"
  let ?pre' = "filter (\<lambda>x. x < (i + 1) * n) ?R"
  note L = range_last_props[OF st ab l]
  from Suc have i: "a0 div n \<le> i" "i \<le> ?fl" by linarith+
  define sa where "sa = (if i = a0 div n then a0 mod n else (a0 - i * n) mod st)"
  define sb where "sb = (if i = l div n then l mod n + 1
                else ((a0 - (i + 1) * n) mod st - st) mod n + 1)"
  note FS = file_slice[OF n st ab l i, folded sa_def sb_def]
  have srt: "sorted ?R"
    using range_list_sorted[OF st, of a0 b0] by (simp add: strict_sorted_iff)
  have pre': "?pre' = ?pre @ ?seg"
    using filter_sorted_split[OF srt, of "i * n" "(i + 1) * n"] n by (simp add: algebra_simps)
  have up: "[i..?fl] = i # [i + 1..?fl]" using i(2) by (rule upto_rec1)
  obtain data where data: "S (fld, p, i) = Some data"
    and rows: "\<And>x. i * n \<le> x \<Longrightarrow> x < (i + 1) * n \<Longrightarrow> x \<le> l \<Longrightarrow>
                 nat (x - i * n) < length data \<and> data ! nat (x - i * n) = row x"
    using wf[OF i] by blast
  have sb_len: "sb \<le> int (length data)"
  proof (cases "i = ?fl")
    case True
    have "i * n \<le> l" "l < (i + 1) * n" using div_bounds_int[OF n, of l] True by auto
    hence "nat (l - i * n) < length data" using rows[of l] by simp
    moreover have "i * n + sb = l + 1" using True by (rule FS(6))
    ultimately show ?thesis by linarith
  next
    case False
    hence "i + 1 \<le> ?fl" using i(2) by linarith
    hence "(i + 1) * n \<le> ?fl * n" using n by (simp add: mult_right_mono)
    hence "(i + 1) * n - 1 \<le> l" using div_bounds_int(1)[OF n, of l] by linarith
    hence "nat ((i + 1) * n - 1 - i * n) < length data"
      using rows[of "(i + 1) * n - 1"] n by (simp add: algebra_simps)
    hence "n \<le> int (length data)" by (simp add: algebra_simps)
    thus ?thesis using FS(4) by linarith
  qed
  have seg_le: "\<And>x. x \<in> set ?seg \<Longrightarrow> x \<le> l"
    using L(4) by (auto simp: range_list_set[OF st])
  have "select_rows data (sa, sb, st) = map (\<lambda>k. data ! nat k) (range_list (Range sa sb st))"
    using slice_indices_clip[OF st sb_len] by (simp add: select_rows_def)
  also have "\<dots> = map (\<lambda>x. data ! nat (x - i * n))
                     (map (\<lambda>k. i * n + k) (range_list (Range sa sb st)))"
    by (simp add: comp_def)
  also have "map (\<lambda>k. i * n + k) (range_list (Range sa sb st)) = ?seg"
    using FS(1) by (simp add: range_list_shift)
  also have "map (\<lambda>x. data ! nat (x - i * n)) ?seg = map row ?seg"
    using rows seg_le by (intro map_cong) auto
  finally have sel: "select_rows data (sa, sb, st) = map row ?seg" .
  have "length ?seg = length (map (\<lambda>k. i * n + k) (range_list (Range sa sb st)))"
    using FS(1) by (simp add: range_list_shift)
  hence "int (length ?seg) = range_len (Range sa sb st)"
    using range_len_nonneg[OF st, of sa sb] by (simp add: length_range_list)
  hence ls: "ceil_div (sb - sa) st = int (length ?seg)"
    using ceil_div_range_len[OF st FS(5)] by simp
  have "length ?pre' \<le> length ?R" by (rule length_filter_le)
  hence le: "length (map row ?pre) + length (map row ?seg) \<le> length arr0"
    using pre' len by simp
  have rd: "read_direct data (map row ?pre @ drop (length ?pre) arr0) (sa, sb, st)
              (int (length ?pre), int (length ?pre) + int (length ?seg)) =
            Inr (map row ?pre' @ drop (length ?pre') arr0)"
    using read_direct_append[OF sel le] by (simp add: pre')
  have len': "int (length ?pre) + int (length ?seg) = int (length ?pre')"
    by (simp add: pre')
  have IH: "read_files S fld p
           (zip [i + 1..?fl]
              (slice_loop n (Range a0 b0 st) l (a0 div n) ?fl [i + 1..?fl]
                 (int (length ?pre'))))
           (map row ?pre' @ drop (length ?pre') arr0) =
         (map (\<lambda>j. (fld, p, j)) [i + 1..?fl], Inr (map row ?R))"
    using Suc(1)[of "i + 1"] Suc(2) i by simp
  have sl: "slice_loop n (Range a0 b0 st) l (a0 div n) ?fl (i # [i + 1..?fl]) (int (length ?pre)) =
        ((sa, sb, st), (int (length ?pre), int (length ?pre'))) #
        slice_loop n (Range a0 b0 st) l (a0 div n) ?fl [i + 1..?fl] (int (length ?pre'))"
    by (simp only: slice_loop.simps Let_def py_range.sel sa_def[symmetric] sb_def[symmetric] ls len')
  show ?case
    unfolding up sl by (simp add: data rd[unfolded len'] IH del: slice_loop.simps)
qed

lemma range_last_InrD:
  assumes "range_last (Range a b st) = Inr l" "0 < st"
  shows "a < b" "l = a + (range_len (Range a b st) - 1) * st"
  using assms by (auto simp: range_last_def range_len_def split: if_splits)

lemma read_files_whole:
  fixes S :: "file_id \<Rightarrow> 'a list option"
  assumes n: "0 < n" and st: "0 < st"
    and last: "range_last (Range a0 b0 st) = Inr l"
    and wf: "\<And>i. a0 div n \<le> i \<Longrightarrow> i \<le> l div n \<Longrightarrow>
               \<exists>data. S (fld, p, i) = Some data \<and>
                 (\<forall>x. i * n \<le> x \<and> x < (i + 1) * n \<and> x \<le> l \<longrightarrow>
                    nat (x - i * n) < length data \<and> data ! nat (x - i * n) = row x)"
    and len: "length arr0 = nat (range_len (Range a0 b0 st))"
  shows "read_files S fld p
           (zip [a0 div n..l div n]
              (slice_loop n (Range a0 b0 st) l (a0 div n) (l div n) [a0 div n..l div n] 0))
           arr0 =
         (map (\<lambda>j. (fld, p, j)) [a0 div n..l div n], Inr (map row (range_list (Range a0 b0 st))))"
proof -
  note D = range_last_InrD[OF last st]
  note L = range_last_props[OF st D]
  have "\<forall>x\<in>set (range_list (Range a0 b0 st)). \<not> x < a0 div n * n"
    using div_bounds_int(1)[OF n, of a0] by (auto simp: range_list_set[OF st])
  hence e: "filter (\<lambda>x. x < a0 div n * n) (range_list (Range a0 b0 st)) = []"
    by (simp only: filter_empty_conv)
  have "a0 div n \<le> l div n" using L(1) n by (intro zdiv_mono1)
  hence i: "a0 div n \<le> a0 div n" "a0 div n \<le> l div n + 1" by simp_all
  have len': "length arr0 = length (range_list (Range a0 b0 st))"
    using len by (simp add: length_range_list)
  show ?thesis
    using read_files_plan[OF n st D wf len' i] by (simp add: e)
qed


section \<open>Facts about the observation transform\<close>

lemma init_default: "init ''post-log'' None = Inr default_dataset"
  by (simp add: init_def default_dataset_def)

lemma init_custom_floor:
  "init ''post-log'' (Some 0.5) = Inr (default_dataset\<lparr>min_photon_count := Some 0.5\<rparr>)"
  by (simp add: init_def default_dataset_def)

lemma init_pre_log: "init ''pre-log'' None = Inr (default_dataset\<lparr>post_log := False\<rparr>)"
  by (simp add: init_def default_dataset_def)

lemma assign_masked_map:
  "assign_masked buf (map_buffer P buf) c = Inr (map_buffer (\<lambda>v. if P v then c else v) buf)"
  by (cases buf) (simp_all add: map2_map_map[where f = "\<lambda>x. x", simplified] zip_map2 zip_same_conv_map comp_def)

lemma assign_masked_map2:
  "assign_masked (map_buffer f buf) (map_buffer P buf) c =
     Inr (map_buffer (\<lambda>v. if P v then c else f v) buf)"
  by (cases buf) (simp_all add: zip_map1 zip_map2 zip_same_conv_map comp_def)

lemma trafo_default_floor:
  assumes "min_photon_count ds = None \<or> min_photon_count ds = Some 0.1"
  shows "get_observation_trafo ds MU_MAX num_samples buf =
           Inr (if post_log ds then buf else map_buffer (\<lambda>v. exp (- v * MU_MAX)) buf)"
  using assms
  by (auto simp: get_observation_trafo_def ORIG_MIN_PHOTON_COUNT_def buffer.map_comp comp_def)

lemma trafo_custom_floor_one_row:
  assumes "min_photon_count ds = Some c" "c \<noteq> 0.1"
  shows "get_observation_trafo ds MU_MAX 1 (Stacked [row]) = Inl ValueError"
  using assms
  by (auto simp: get_observation_trafo_def ORIG_MIN_PHOTON_COUNT_def greater_equal_def)

lemma trafo_single:
  "\<exists>r. get_observation_trafo ds MU_MAX 1 (Single row) = Inr (Single r)"
  by (auto simp: get_observation_trafo_def greater_equal_def Let_def assign_masked_map2 assign_masked_map)

lemma trafo_single_not_IndexError:
  "get_observation_trafo ds MU_MAX 1 (Single row) \<noteq> Inl IndexError"
  using trafo_single[of ds MU_MAX row] by auto

lemma thres0_bounds:
  "\<not> 0.5 * (- ln (0.1 / 4096) - ln (1 / 4096)) / (81::real) \<le> - 1"
  "0.5 * (- ln (0.1 / 4096) - ln (1 / 4096)) / (81::real) \<le> 1000"
proof -
  have a: "ln (0.1 / 4096 :: real) = - ln 40960" "ln (1 / 4096 :: real) = - ln 4096"
    by (simp_all add: ln_div)
  have p: "0 < ln (40960::real)" "0 < ln (4096::real)" by simp_all
  have q: "0 < ln 40960 + ln (4096::real)" using p by linarith
  have u: "ln (40960::real) \<le> 40960 - 1" "ln (4096::real) \<le> 4096 - 1"
    by (rule ln_le_minus_one, simp)+
  show "\<not> 0.5 * (- ln (0.1 / 4096) - ln (1 / 4096)) / (81::real) \<le> - 1"
    unfolding a using q by simp
  show "0.5 * (- ln (0.1 / 4096) - ln (1 / 4096)) / (81::real) \<le> 1000"
    unfolding a using u by simp
qed


section \<open>Reading one sample\<close>

lemma range_list_single: "range_list (Range a (a + 1) 1) = [a]"
  by (simp add: range_list_def range_len_def)

lemma read_row:
  assumes "0 \<le> k" "k < int (length data)"
  shows "read_direct data [buf] (k, k + 1, 1) (0, 1) = Inr [data ! nat k]"
  using assms
  by (simp add: read_direct_def select_rows_def slice_indices_def min_def range_list_single)

lemma stored_file:
  assumes "store_wf ds st" "0 \<le> x" "x < get_len ds part"
  shows "\<exists>data. st (fld, part, x div NUM_SAMPLES_PER_FILE) = Some data \<and>
           x mod NUM_SAMPLES_PER_FILE < int (length data)"
proof -
  have N: "0 < NUM_SAMPLES_PER_FILE" by (simp add: NUM_SAMPLES_PER_FILE_def)
  let ?i = "x div NUM_SAMPLES_PER_FILE"
  have i0: "0 \<le> ?i" using assms(2) N by (simp add: pos_imp_zdiv_nonneg_iff)
  have lo: "?i * NUM_SAMPLES_PER_FILE \<le> x" using div_bounds_int(1)[OF N] .
  hence "?i * NUM_SAMPLES_PER_FILE < get_len ds part" using assms(3) by linarith
  then obtain data where d: "st (fld, part, ?i) = Some data"
    "int (length data) = min NUM_SAMPLES_PER_FILE (get_len ds part - ?i * NUM_SAMPLES_PER_FILE)"
    using assms(1) i0 unfolding store_wf_def by blast
  have "x mod NUM_SAMPLES_PER_FILE = x - ?i * NUM_SAMPLES_PER_FILE"
    by (simp add: minus_div_mult_eq_mod)
  moreover have "x mod NUM_SAMPLES_PER_FILE < NUM_SAMPLES_PER_FILE" using N by simp
  ultimately have "x mod NUM_SAMPLES_PER_FILE < int (length data)"
    using d(2) assms(3) by linarith
  thus ?thesis using d(1) by blast
qed

lemma read_sample_wf:
  assumes "store_wf ds st" "0 \<le> x" "x < get_len ds part"
  shows "read_sample st (fld, part, x div NUM_SAMPLES_PER_FILE) (x mod NUM_SAMPLES_PER_FILE) buf =
           Inr (stored_row st fld part x)"
proof -
  obtain data where d: "st (fld, part, x div NUM_SAMPLES_PER_FILE) = Some data"
    "x mod NUM_SAMPLES_PER_FILE < int (length data)"
    using stored_file[OF assms] by blast
  have "0 \<le> x mod NUM_SAMPLES_PER_FILE" by (simp add: NUM_SAMPLES_PER_FILE_def)
  thus ?thesis using d by (simp add: read_sample_def stored_row_def read_row)
qed

lemma read_sample_not_IndexError: "read_sample st fid k buf \<noteq> Inl IndexError"
  by (auto simp: read_sample_def read_direct_def Let_def split: option.splits sum.splits)

lemma example_store_wf: "store_wf default_dataset example_store"
  by (auto simp: store_wf_def example_store_def NUM_SAMPLES_PER_FILE_def)

lemma get_len_update_floor: "get_len (ds\<lparr>min_photon_count := c\<rparr>) part = get_len ds part"
  by (cases part) simp_all

lemma example_store_wf_custom:
  "store_wf (default_dataset\<lparr>min_photon_count := Some 0.5\<rparr>) example_store"
  using example_store_wf by (simp add: store_wf_def get_len_update_floor)

lemma get_sample_out_of_range:
  "index \<ge> get_len ds part \<or> index < - get_len ds part \<Longrightarrow>
     get_sample ds MU_MAX st index part out = ([], Inl IndexError)"
  by (simp add: get_sample_def)

lemma get_sample_in_range_not_IndexError:
  assumes "\<not> (index \<ge> get_len ds part \<or> index < - get_len ds part)"
  shows "snd (get_sample ds MU_MAX st index part out) \<noteq> Inl IndexError"
  using assms read_sample_not_IndexError trafo_single_not_IndexError
  by (auto simp: get_sample_def Let_def split: option.splits sum.splits prod.splits out_arg.splits if_splits)

lemma get_sample_wf:
  assumes "store_wf ds st" "0 \<le> x" "x < get_len ds part"
  shows "\<exists>r. get_observation_trafo ds MU_MAX 1 (Single (stored_row st Observation part x)) =
               Inr (Single r) \<and>
             get_sample ds MU_MAX st x part (Some (Flag True, Flag True)) =
               ([(Observation, part, x div NUM_SAMPLES_PER_FILE),
                 (GroundTruth, part, x div NUM_SAMPLES_PER_FILE)],
                Inr (Some (Single r), Some (Single (stored_row st GroundTruth part x))))"
proof -
  obtain r where r: "get_observation_trafo ds MU_MAX 1
      (Single (stored_row st Observation part x)) = Inr (Single r)"
    using trafo_single by blast
  show ?thesis using assms r
    by (auto simp: get_sample_def Let_def read_sample_wf split: sum.splits)
qed

lemma get_sample_gt:
  assumes wf: "store_wf ds st"
    and idx: "- get_len ds part \<le> index" "index < get_len ds part"
    and og: "og \<noteq> Flag False"
  shows "\<exists>obs. snd (get_sample ds MU_MAX st index part (Some (oo, og))) =
           Inr (obs, Some (Single (stored_row st GroundTruth part
                                     (if index < 0 then index + get_len ds part else index))))"
proof -
  define x where "x = (if index < 0 then index + get_len ds part else index)"
  have x: "0 \<le> x" "x < get_len ds part" using idx by (auto simp: x_def)
  obtain r where r: "get_observation_trafo ds MU_MAX 1
      (Single (stored_row st Observation part x)) = Inr (Single r)"
    using trafo_single by blast
  have rs: "\<And>fld buf. read_sample st (fld, part, x div NUM_SAMPLES_PER_FILE)
              (x mod NUM_SAMPLES_PER_FILE) buf = Inr (stored_row st fld part x)"
    using read_sample_wf[OF wf x] by simp
  have "\<exists>obs. snd (get_sample ds MU_MAX st index part (Some (oo, og))) =
           Inr (obs, Some (Single (stored_row st GroundTruth part x)))"
    using idx og r rs unfolding get_sample_def Let_def x_def[symmetric]
    by (cases oo; cases og) (auto split: if_splits)
  thus ?thesis by (simp add: x_def)
qed


section \<open>Reading a range\<close>

lemma N_pos: "0 < NUM_SAMPLES_PER_FILE"
  by (simp add: NUM_SAMPLES_PER_FILE_def)

lemma get_samples_valid:
  assumes "key_range k (get_len ds part) = Inr rng" "0 \<le> r_step rng"
    and "range_last rng = Inr l" "l < get_len ds part"
  shows "get_samples ds MU_MAX st k part (Some (oo, og)) =
           read_samples ds MU_MAX st part rng
             (zip [r_start rng div NUM_SAMPLES_PER_FILE..l div NUM_SAMPLES_PER_FILE]
                (slice_loop NUM_SAMPLES_PER_FILE rng l
                   (r_start rng div NUM_SAMPLES_PER_FILE) (l div NUM_SAMPLES_PER_FILE)
                   [r_start rng div NUM_SAMPLES_PER_FILE..l div NUM_SAMPLES_PER_FILE] 0))
             oo og"
proof -
  have "range_first rng = Inr (r_start rng)"
    using assms(3) by (auto simp: range_first_def range_last_def split: if_splits)
  thus ?thesis using assms by (simp add: get_samples_def Let_def)
qed

lemma read_files_store:
  assumes wf: "store_wf ds st" and s: "0 < s" and a: "0 \<le> a"
    and last: "range_last (Range a b s) = Inr l" and l: "l < get_len ds part"
    and len: "length arr0 = nat (range_len (Range a b s))"
  shows "read_files st fld part
           (zip [a div NUM_SAMPLES_PER_FILE..l div NUM_SAMPLES_PER_FILE]
              (slice_loop NUM_SAMPLES_PER_FILE (Range a b s) l
                 (a div NUM_SAMPLES_PER_FILE) (l div NUM_SAMPLES_PER_FILE)
                 [a div NUM_SAMPLES_PER_FILE..l div NUM_SAMPLES_PER_FILE] 0))
           arr0 =
         (map (\<lambda>j. (fld, part, j)) [a div NUM_SAMPLES_PER_FILE..l div NUM_SAMPLES_PER_FILE],
          Inr (map (stored_row st fld part) (range_list (Range a b s))))"
proof (rule read_files_whole[OF N_pos s last _ len])
  fix i
  assume i: "a div NUM_SAMPLES_PER_FILE \<le> i" "i \<le> l div NUM_SAMPLES_PER_FILE"
  let ?N = NUM_SAMPLES_PER_FILE
  have "0 \<le> a div ?N" using a N_pos by (simp add: pos_imp_zdiv_nonneg_iff)
  hence i0: "0 \<le> i" using i(1) by linarith
  have "i * ?N \<le> l div ?N * ?N" using i(2) N_pos by (simp add: mult_right_mono)
  hence il: "i * ?N < get_len ds part" using div_bounds_int(1)[OF N_pos, of l] l by linarith
  obtain data where d: "st (fld, part, i) = Some data"
    "int (length data) = min ?N (get_len ds part - i * ?N)"
    using wf i0 il unfolding store_wf_def by blast
  have "nat (x - i * ?N) < length data \<and> data ! nat (x - i * ?N) = stored_row st fld part x"
    if x: "i * ?N \<le> x \<and> x < (i + 1) * ?N \<and> x \<le> l" for x
  proof -
    have r: "0 \<le> x - i * ?N" "x - i * ?N < ?N" using x by (simp_all add: algebra_simps)
    have e: "x = ?N * i + (x - i * ?N)" by (simp add: algebra_simps)
    have dm: "x div ?N = i" "x mod ?N = x - i * ?N"
      using int_div_pos_eq[OF e r] int_mod_pos_eq[OF e r] by simp_all
    have "x - i * ?N < int (length data)" using d(2) r x l by linarith
    thus ?thesis using d(1) dm r by (simp add: stored_row_def)
  qed
  thus "\<exists>data. st (fld, part, i) = Some data \<and>
          (\<forall>x. i * ?N \<le> x \<and> x < (i + 1) * ?N \<and> x \<le> l \<longrightarrow>
             nat (x - i * ?N) < length data \<and> data ! nat (x - i * ?N) = stored_row st fld part x)"
    using d(1) by blast
qed

lemma read_samples_gt:
  assumes wf: "store_wf ds st" and s: "0 < s" and a: "0 \<le> a"
    and last: "range_last (Range a b s) = Inr l" and l: "l < get_len ds part"
    and og: "og = Flag True \<or> (\<exists>arr. og = Buf arr \<and> length arr = nat (range_len (Range a b s)))"
    and plan: "plan = zip [a div NUM_SAMPLES_PER_FILE..l div NUM_SAMPLES_PER_FILE]
              (slice_loop NUM_SAMPLES_PER_FILE (Range a b s) l
                 (a div NUM_SAMPLES_PER_FILE) (l div NUM_SAMPLES_PER_FILE)
                 [a div NUM_SAMPLES_PER_FILE..l div NUM_SAMPLES_PER_FILE] 0)"
  shows "read_samples ds MU_MAX st part (Range a b s) plan oo og =
           (case read_samples ds MU_MAX st part (Range a b s) plan oo (Flag False) of
              (opened, Inl e) \<Rightarrow> (opened, Inl e)
            | (opened, Inr (obs, gt)) \<Rightarrow>
                (opened @ map (\<lambda>j. (GroundTruth, part, j))
                            [a div NUM_SAMPLES_PER_FILE..l div NUM_SAMPLES_PER_FILE],
                 Inr (obs, Some (Stacked (map (stored_row st GroundTruth part)
                                            (range_list (Range a b s)))))))"
proof -
  have rf: "\<And>arr0. length arr0 = nat (range_len (Range a b s)) \<Longrightarrow>
      read_files st GroundTruth part plan arr0 =
         (map (\<lambda>j. (GroundTruth, part, j)) [a div NUM_SAMPLES_PER_FILE..l div NUM_SAMPLES_PER_FILE],
          Inr (map (stored_row st GroundTruth part) (range_list (Range a b s))))"
    unfolding plan using read_files_store[OF wf s a last l] by blast
  from og show ?thesis
  proof
    assume "og = Flag True"
    thus ?thesis
      by (simp add: read_samples_def Let_def rf split: prod.splits sum.splits option.splits)
  next
    assume "\<exists>arr. og = Buf arr \<and> length arr = nat (range_len (Range a b s))"
    then obtain arr where "og = Buf arr" "length arr = nat (range_len (Range a b s))" by blast
    thus ?thesis
      by (simp add: read_samples_def Let_def rf split: prod.splits sum.splits option.splits)
  qed
qed

lemma read_samples_default_floor:
  assumes wf: "store_wf ds st" and s: "0 < s" and a: "0 \<le> a"
    and last: "range_last (Range a b s) = Inr l" and l: "l < get_len ds part"
    and dflt: "min_photon_count ds = None \<or> min_photon_count ds = Some 0.1"
    and plan: "plan = zip [a div NUM_SAMPLES_PER_FILE..l div NUM_SAMPLES_PER_FILE]
              (slice_loop NUM_SAMPLES_PER_FILE (Range a b s) l
                 (a div NUM_SAMPLES_PER_FILE) (l div NUM_SAMPLES_PER_FILE)
                 [a div NUM_SAMPLES_PER_FILE..l div NUM_SAMPLES_PER_FILE] 0)"
  shows "read_samples ds MU_MAX st part (Range a b s) plan (Flag True) (Flag True) =
           (map (\<lambda>j. (Observation, part, j))
              [a div NUM_SAMPLES_PER_FILE..l div NUM_SAMPLES_PER_FILE] @
            map (\<lambda>j. (GroundTruth, part, j))
              [a div NUM_SAMPLES_PER_FILE..l div NUM_SAMPLES_PER_FILE],
            Inr (Some (if post_log ds
                       then Stacked (map (stored_row st Observation part) (range_list (Range a b s)))
                       else map_buffer (\<lambda>v. exp (- v * MU_MAX))
                              (Stacked (map (stored_row st Observation part)
                                          (range_list (Range a b s))))),
                 Some (Stacked (map (stored_row st GroundTruth part) (range_list (Range a b s))))))"
proof -
  have rf: "\<And>fld arr0. length arr0 = nat (range_len (Range a b s)) \<Longrightarrow>
      read_files st fld part plan arr0 =
         (map (\<lambda>j. (fld, part, j)) [a div NUM_SAMPLES_PER_FILE..l div NUM_SAMPLES_PER_FILE],
          Inr (map (stored_row st fld part) (range_list (Range a b s))))"
    unfolding plan using read_files_store[OF wf s a last l] by blast
  show ?thesis
    by (simp add: read_samples_def Let_def rf trafo_default_floor[OF dflt])
qed

lemma read_samples_custom_floor_one:
  assumes wf: "store_wf ds st" and a: "0 \<le> a" and l: "a < get_len ds part"
    and cust: "min_photon_count ds = Some c" "c \<noteq> 0.1"
  shows "get_samples ds MU_MAX st (RangeKey (Range a (a + 1) 1)) part (Some (Flag True, og)) =
           ([(Observation, part, a div NUM_SAMPLES_PER_FILE)], Inl ValueError)"
proof -
  have last: "range_last (Range a (a + 1) 1) = Inr a"
    by (simp add: range_last_def range_len_def)
  have rf: "\<And>arr0. length arr0 = 1 \<Longrightarrow>
      read_files st Observation part
        (zip [a div NUM_SAMPLES_PER_FILE]
              (slice_loop NUM_SAMPLES_PER_FILE (Range a (a + 1) 1) a
                 (a div NUM_SAMPLES_PER_FILE) (a div NUM_SAMPLES_PER_FILE)
                 [a div NUM_SAMPLES_PER_FILE] 0)) arr0 =
         ([(Observation, part, a div NUM_SAMPLES_PER_FILE)],
          Inr [stored_row st Observation part a])"
    using read_files_store[OF wf _ a last l, where fld = Observation]
    by (simp add: range_len_def range_list_single del: slice_loop.simps)
  have "get_samples ds MU_MAX st (RangeKey (Range a (a + 1) 1)) part (Some (Flag True, og)) =
        read_samples ds MU_MAX st part (Range a (a + 1) 1)
             (zip [a div NUM_SAMPLES_PER_FILE..a div NUM_SAMPLES_PER_FILE]
                (slice_loop NUM_SAMPLES_PER_FILE (Range a (a + 1) 1) a
                   (a div NUM_SAMPLES_PER_FILE) (a div NUM_SAMPLES_PER_FILE)
                   [a div NUM_SAMPLES_PER_FILE..a div NUM_SAMPLES_PER_FILE] 0))
             (Flag True) og"
    using get_samples_valid[of "RangeKey (Range a (a + 1) 1)" ds part "Range a (a + 1) 1" a] last l
    by (simp add: key_range_def)
  also have "\<dots> = ([(Observation, part, a div NUM_SAMPLES_PER_FILE)], Inl ValueError)"
    unfolding read_samples_def Let_def
    by (simp add: rf range_len_def range_list_single trafo_custom_floor_one_row[OF cust, unfolded One_nat_def]
          del: slice_loop.simps)
  finally show ?thesis .
qed

lemma get_samples_default_floor:
  assumes wf: "store_wf ds st"
    and k: "key_range k (get_len ds part) = Inr (Range a b s)"
    and s: "0 < s" and a: "0 \<le> a"
    and last: "range_last (Range a b s) = Inr l" and l: "l < get_len ds part"
    and dflt: "min_photon_count ds = None \<or> min_photon_count ds = Some 0.1"
  shows "get_samples ds MU_MAX st k part (Some (Flag True, Flag True)) =
           (map (\<lambda>j. (Observation, part, j))
              [a div NUM_SAMPLES_PER_FILE..l div NUM_SAMPLES_PER_FILE] @
            map (\<lambda>j. (GroundTruth, part, j))
              [a div NUM_SAMPLES_PER_FILE..l div NUM_SAMPLES_PER_FILE],
            Inr (Some (if post_log ds
                       then Stacked (map (stored_row st Observation part) (range_list (Range a b s)))
                       else map_buffer (\<lambda>v. exp (- v * MU_MAX))
                              (Stacked (map (stored_row st Observation part)
                                          (range_list (Range a b s))))),
                 Some (Stacked (map (stored_row st GroundTruth part) (range_list (Range a b s))))))"
  using get_samples_valid[OF k _ last l, where MU_MAX = MU_MAX and st = st
          and oo = "Flag True" and og = "Flag True"] s
    read_samples_default_floor[OF wf s a last l dflt refl, where MU_MAX = MU_MAX]
  by simp


section \<open>The claims\<close>

text \<open>
  Claim C1. For every shard size \<open>n \<ge> 1\<close>, every partition length and every range
  \<open>(start, stop, step)\<close> with \<open>step \<ge> 1\<close>, \<open>start \<ge> 0\<close> and its last index within the
  partition, the slices that the loop of \<open>get_samples\<close> computes (\<open>slice_loop\<close>), read
  shard after shard from the synthetic array \<open>0, \<dots>, len_part - 1\<close> into an array of
  \<open>len(range)\<close> rows, open the shards of the range in order and fill the array with
  exactly \<open>start, start + step, \<dots>\<close> below \<open>stop\<close>: every row is written once, none is
  left out.
\<close>

theorem slices_reconstruct_range:
  assumes "0 < n" and "1 \<le> step" and "0 \<le> start"
    and "range_last (Range start stop step) = Inr last_index"
    and "last_index < len_part"
  shows "read_files (synthetic_store n len_part) fld part
           (zip [start div n..last_index div n]
              (slice_loop n (Range start stop step) last_index
                 (start div n) (last_index div n) [start div n..last_index div n] 0))
           (replicate (nat (range_len (Range start stop step))) d) =
         (map (\<lambda>i. (fld, part, i)) [start div n..last_index div n],
          Inr (range_list (Range start stop step)))"
proof -
  have st: "0 < step" using assms(2) by simp
  have wf: "\<exists>data. synthetic_store n len_part (fld, part, i) = Some data \<and>
                 (\<forall>x. i * n \<le> x \<and> x < (i + 1) * n \<and> x \<le> last_index \<longrightarrow>
                    nat (x - i * n) < length data \<and> data ! nat (x - i * n) = x)"
    if i: "start div n \<le> i" "i \<le> last_index div n" for i
  proof -
    have "0 \<le> start div n" using assms(1,3) by (simp add: pos_imp_zdiv_nonneg_iff)
    hence i0: "0 \<le> i" using i(1) by linarith
    have "i * n \<le> last_index div n * n" using i(2) assms(1) by (simp add: mult_right_mono)
    hence il: "i * n < len_part" using div_bounds_int(1)[OF assms(1), of last_index] assms(5) by linarith
    show ?thesis using i0 il assms(5)
      by (auto simp: synthetic_store_def algebra_simps)
  qed
  show ?thesis
    using read_files_whole[OF assms(1) st assms(4), where row = "\<lambda>x. x" and S = "synthetic_store n len_part", OF wf]
    by simp
qed

theorem slices_reconstruct_range_witness:
  "(0::int) < 10 \<and> (1::int) \<le> 4 \<and> (0::int) \<le> 3 \<and> range_last (Range 3 27 4) = Inr 23 \<and> (23::int) < 30 \<and>
   read_files (synthetic_store 10 30) Observation Train
     (zip [0..2] (slice_loop 10 (Range 3 27 4) 23 0 2 [0..2] 0)) (replicate 6 0) =
   ([(Observation, Train, 0), (Observation, Train, 1), (Observation, Train, 2)],
    Inr [3, 7, 11, 15, 19, 23])"
  using slices_reconstruct_range[of 10 4 3 27 23 30 Observation Train 0]
  by (simp add: range_last_def range_len_def range_list_def upto_rec1 upt_rec)

text \<open>
  Claim C2. For every valid index \<open>i\<close> and every configuration of the dataset,
  \<open>get_sample(i, part, out=(True, True))\<close> and
  \<open>get_samples(range(i, i + 1), part, out=(True, True))\<close> return the same observation
  values and the same ground-truth values. The code does not: with a noise floor other
  than \<open>None\<close> and \<open>0.1\<close>, \<open>get_samples\<close> builds the transform for
  \<open>num_samples = len(obs_arr) = 1\<close>, so the mask has the shape of one sample while the
  array has a leading axis of length one, and \<open>np.greater_equal\<close> raises. Here the
  dataset has \<open>min_photon_count = 0.5\<close> and the index is \<open>1000\<close>: \<open>get_sample\<close>
  returns the sample, \<open>get_samples\<close> raises \<open>ValueError\<close> after opening the observation
  file.
\<close>

theorem single_vs_range_custom_floor:
  "get_sample (default_dataset\<lparr>min_photon_count := Some 0.5\<rparr>) 81 example_store 1000 Train
     (Some (Flag True, Flag True)) =
   ([(Observation, Train, 7), (GroundTruth, Train, 7)],
    Inr (Some (Single [- ln (0.5 / 4096) / 81]), Some (Single [- 1000]))) \<and>
   get_samples (default_dataset\<lparr>min_photon_count := Some 0.5\<rparr>) 81 example_store
     (RangeKey (Range 1000 1001 1)) Train (Some (Flag True, Flag True)) =
   ([(Observation, Train, 7)], Inl ValueError)"
proof -
  let ?ds = "default_dataset\<lparr>min_photon_count := Some 0.5\<rparr>"
  have so: "stored_row example_store Observation Train 1000 = [1000]"
    and sg: "stored_row example_store GroundTruth Train 1000 = [- 1000]"
    by (simp_all add: stored_row_def example_store_def NUM_SAMPLES_PER_FILE_def default_dataset_def)
  have t: "get_observation_trafo ?ds 81 1 (Single [1000]) = Inr (Single [- ln (0.5 / 4096) / 81])"
    using thres0_bounds(2)
    by (simp add: get_observation_trafo_def default_dataset_def ORIG_MIN_PHOTON_COUNT_def
          PHOTONS_PER_PIXEL_def thres0_def greater_equal_def)
  have "get_sample ?ds 81 example_store 1000 Train (Some (Flag True, Flag True)) =
   ([(Observation, Train, 7), (GroundTruth, Train, 7)],
    Inr (Some (Single [- ln (0.5 / 4096) / 81]), Some (Single [- 1000])))"
    using get_sample_wf[OF example_store_wf_custom, of 1000 Train 81] t
    by (auto simp: so sg default_dataset_def NUM_SAMPLES_PER_FILE_def)
  moreover have "get_samples ?ds 81 example_store
     (RangeKey (Range 1000 1001 1)) Train (Some (Flag True, Flag True)) =
   ([(Observation, Train, 7)], Inl ValueError)"
    using read_samples_custom_floor_one[OF example_store_wf_custom, where a = 1000
            and part = Train and c = "0.5" and MU_MAX = 81 and og = "Flag True"]
    by (simp add: default_dataset_def NUM_SAMPLES_PER_FILE_def)
  ultimately show ?thesis by simp
qed

text \<open>
  With the default noise floor and \<open>0 \<le> i\<close> the two calls do agree: they open the same
  files and return the same values, once as arrays and once as stacks of one row.
\<close>

lemma single_vs_range_default_floor:
  assumes wf: "store_wf ds st" and i: "0 \<le> i" "i < get_len ds part"
    and dflt: "min_photon_count ds = None \<or> min_photon_count ds = Some 0.1"
  shows "\<exists>obs gt.
           get_sample ds MU_MAX st i part (Some (Flag True, Flag True)) =
             ([(Observation, part, i div NUM_SAMPLES_PER_FILE),
               (GroundTruth, part, i div NUM_SAMPLES_PER_FILE)],
              Inr (Some (Single obs), Some (Single gt))) \<and>
           get_samples ds MU_MAX st (RangeKey (Range i (i + 1) 1)) part
               (Some (Flag True, Flag True)) =
             ([(Observation, part, i div NUM_SAMPLES_PER_FILE),
               (GroundTruth, part, i div NUM_SAMPLES_PER_FILE)],
              Inr (Some (Stacked [obs]), Some (Stacked [gt])))"
proof -
  have last: "range_last (Range i (i + 1) 1) = Inr i"
    by (simp add: range_last_def range_len_def)
  have k: "key_range (RangeKey (Range i (i + 1) 1)) (get_len ds part) = Inr (Range i (i + 1) 1)"
    by (simp add: key_range_def)
  obtain r where r: "get_observation_trafo ds MU_MAX 1 (Single (stored_row st Observation part i)) =
               Inr (Single r)"
    and gs: "get_sample ds MU_MAX st i part (Some (Flag True, Flag True)) =
               ([(Observation, part, i div NUM_SAMPLES_PER_FILE),
                 (GroundTruth, part, i div NUM_SAMPLES_PER_FILE)],
                Inr (Some (Single r), Some (Single (stored_row st GroundTruth part i))))"
    using get_sample_wf[OF wf i] by blast
  have r': "r = (if post_log ds then stored_row st Observation part i
                 else map (\<lambda>v. exp (- v * MU_MAX)) (stored_row st Observation part i))"
    using r trafo_default_floor[OF dflt, of MU_MAX 1 "Single (stored_row st Observation part i)"]
    by (auto split: if_splits)
  have "get_samples ds MU_MAX st (RangeKey (Range i (i + 1) 1)) part
               (Some (Flag True, Flag True)) =
             ([(Observation, part, i div NUM_SAMPLES_PER_FILE),
               (GroundTruth, part, i div NUM_SAMPLES_PER_FILE)],
              Inr (Some (Stacked [r]), Some (Stacked [stored_row st GroundTruth part i])))"
    using get_samples_default_floor[OF wf k _ i(1) last i(2) dflt, of MU_MAX]
    by (simp add: range_list_single r')
  thus ?thesis using gs by blast
qed

text \<open>
  Claim C3, the part that fails. The claim has a key with step \<open>0\<close> rejected. A
  \<open>slice\<close> with step \<open>0\<close> is not: \<open>key.step or 1\<close> turns it into step \<open>1\<close>, and the
  call returns the samples \<open>1\<close> and \<open>2\<close>.
\<close>

theorem get_samples_step_zero_counterexample:
  "get_samples default_dataset 81 example_store (SliceKey (Some 1) (Some 3) (Some 0)) Train
     (Some (Flag True, Flag True)) =
   ([(Observation, Train, 0), (GroundTruth, Train, 0)],
    Inr (Some (Stacked [ [1], [2] ]), Some (Stacked [ [- 1], [- 2] ])))"
proof -
  have k: "key_range (SliceKey (Some 1) (Some 3) (Some 0)) (get_len default_dataset Train) =
             Inr (Range 1 3 1)"
    by (simp add: key_range_def)
  have last: "range_last (Range 1 3 1) = Inr 2"
    by (simp add: range_last_def range_len_def)
  show ?thesis
    using get_samples_default_floor[OF example_store_wf k _ _ last, of 81]
    by (simp add: default_dataset_def NUM_SAMPLES_PER_FILE_def range_list_def range_len_def
          stored_row_def example_store_def upt_rec)
qed

text \<open>
  Claim C3, as amended. A slice or range key with a negative step makes \<open>get_samples\<close>
  raise \<open>ValueError\<close> before any slice is computed and with no shard file opened. A
  slice key with step \<open>0\<close> is not rejected: it behaves as one with no step, that is
  with step \<open>1\<close>. (A \<open>range\<close> cannot be built with step \<open>0\<close>.)
\<close>

theorem get_samples_negative_step:
  "(s < 0 \<longrightarrow>
      get_samples ds MU_MAX st (SliceKey start stop (Some s)) part out = ([], Inl ValueError) \<and>
      get_samples ds MU_MAX st (RangeKey (Range a b s)) part out = ([], Inl ValueError)) \<and>
   get_samples ds MU_MAX st (SliceKey start stop (Some 0)) part out =
     get_samples ds MU_MAX st (SliceKey start stop None) part out \<and>
   get_samples ds MU_MAX st (SliceKey start stop (Some 0)) part out =
     get_samples ds MU_MAX st (SliceKey start stop (Some 1)) part out"
  by (simp add: get_samples_def key_range_def Let_def)

theorem get_samples_negative_step_witness:
  "(- 1 :: int) < 0 \<and>
   get_samples default_dataset 81 example_store (SliceKey (Some 3) (Some 1) (Some (- 1))) Train
     (Some (Flag True, Flag True)) = ([], Inl ValueError) \<and>
   get_samples default_dataset 81 example_store (RangeKey (Range 3 1 (- 1))) Train
     (Some (Flag True, Flag True)) = ([], Inl ValueError)"
  using get_samples_negative_step[where s = "- 1" and ds = default_dataset and MU_MAX = 81
          and st = example_store and start = "Some 3" and stop = "Some 1" and part = Train
          and out = "Some (Flag True, Flag True)" and a = 3 and b = 1]
  by simp

text \<open>
  Claim C4. \<open>get_sample(index, part)\<close> raises \<open>IndexError\<close> if and only if
  \<open>index \<ge> length\<close> or \<open>index < - length\<close>, and then no shard file has been opened.
  In particular \<open>index = length\<close> and \<open>index = - length - 1\<close> fail, while
  \<open>index = length - 1\<close> succeeds (for a dataset that is present, a non-empty part and
  \<open>out = (True, True)\<close>).
\<close>

theorem get_sample_index_error:
  "(snd (get_sample ds MU_MAX st index part out) = Inl IndexError \<longleftrightarrow>
      index \<ge> get_len ds part \<or> index < - get_len ds part) \<and>
   (snd (get_sample ds MU_MAX st index part out) = Inl IndexError \<longrightarrow>
      fst (get_sample ds MU_MAX st index part out) = []) \<and>
   snd (get_sample ds MU_MAX st (get_len ds part) part out) = Inl IndexError \<and>
   snd (get_sample ds MU_MAX st (- get_len ds part - 1) part out) = Inl IndexError \<and>
   (store_wf ds st \<and> 0 < get_len ds part \<longrightarrow>
      (\<exists>obs gt. snd (get_sample ds MU_MAX st (get_len ds part - 1) part
                       (Some (Flag True, Flag True))) = Inr (Some obs, Some gt)))"
proof (intro conjI impI)
  show iff: "snd (get_sample ds MU_MAX st index part out) = Inl IndexError \<longleftrightarrow>
      index \<ge> get_len ds part \<or> index < - get_len ds part"
    using get_sample_out_of_range[where ds = ds and index = index and part = part and out = out]
      get_sample_in_range_not_IndexError[where ds = ds and index = index and part = part
        and out = out] by auto
  show "fst (get_sample ds MU_MAX st index part out) = []"
    if "snd (get_sample ds MU_MAX st index part out) = Inl IndexError"
    using that iff get_sample_out_of_range[where ds = ds and index = index and part = part
        and out = out] by auto
  show "snd (get_sample ds MU_MAX st (get_len ds part) part out) = Inl IndexError"
    by (simp add: get_sample_out_of_range)
  show "snd (get_sample ds MU_MAX st (- get_len ds part - 1) part out) = Inl IndexError"
    by (simp add: get_sample_out_of_range)
  show "\<exists>obs gt. snd (get_sample ds MU_MAX st (get_len ds part - 1) part
                       (Some (Flag True, Flag True))) = Inr (Some obs, Some gt)"
    if "store_wf ds st \<and> 0 < get_len ds part"
    using that get_sample_wf[of ds st "get_len ds part - 1" part MU_MAX] by auto
qed

theorem get_sample_index_error_witness:
  "snd (get_sample default_dataset 81 example_store 35820 Train (Some (Flag True, Flag True))) =
     Inl IndexError \<and>
   fst (get_sample default_dataset 81 example_store 35820 Train (Some (Flag True, Flag True))) = [] \<and>
   store_wf default_dataset example_store \<and> 0 < get_len default_dataset Train \<and>
   (\<exists>obs gt. snd (get_sample default_dataset 81 example_store (get_len default_dataset Train - 1)
                    Train (Some (Flag True, Flag True))) = Inr (Some obs, Some gt))"
  using get_sample_index_error[where ds = default_dataset and MU_MAX = 81 and st = example_store
          and index = 35820 and part = Train and out = "Some (Flag True, Flag True)"]
        example_store_wf
  by (simp add: default_dataset_def)

text \<open>
  Claim C5. For every index \<open>i\<close> with \<open>- length \<le> i < 0\<close>, \<open>get_sample(i, part)\<close>
  is \<open>get_sample(i + length, part)\<close>: the same files opened, the same result. In
  particular \<open>get_sample(-1, part)\<close> is \<open>get_sample(length - 1, part)\<close>.
\<close>

theorem get_sample_negative_index:
  "(- get_len ds part \<le> index \<and> index < 0 \<longrightarrow>
      get_sample ds MU_MAX st index part out =
      get_sample ds MU_MAX st (index + get_len ds part) part out) \<and>
   (0 < get_len ds part \<longrightarrow>
      get_sample ds MU_MAX st (- 1) part out =
      get_sample ds MU_MAX st (get_len ds part - 1) part out)"
  by (simp add: get_sample_def)

theorem get_sample_negative_index_witness:
  "- get_len default_dataset Train \<le> - 1 \<and> (- 1 :: int) < 0 \<and> 0 < get_len default_dataset Train \<and>
   get_sample default_dataset 81 example_store (- 1) Train (Some (Flag True, Flag True)) =
   get_sample default_dataset 81 example_store 35819 Train (Some (Flag True, Flag True)) \<and>
   get_sample default_dataset 81 example_store 35819 Train (Some (Flag True, Flag True)) =
     ([(Observation, Train, 279), (GroundTruth, Train, 279)],
      Inr (Some (Single [35819]), Some (Single [- 35819])))"
proof -
  have "get_sample default_dataset 81 example_store 35819 Train (Some (Flag True, Flag True)) =
     ([(Observation, Train, 279), (GroundTruth, Train, 279)],
      Inr (Some (Single [35819]), Some (Single [- 35819])))"
    using get_sample_wf[OF example_store_wf, of 35819 Train 81]
    by (auto simp: default_dataset_def get_observation_trafo_def stored_row_def example_store_def
          NUM_SAMPLES_PER_FILE_def)
  thus ?thesis
    using get_sample_negative_index[where ds = default_dataset and part = Train
            and index = "- 1" and MU_MAX = 81 and st = example_store
            and out = "Some (Flag True, Flag True)"]
    by (simp add: default_dataset_def)
qed

text \<open>
  Claim C6. With \<open>post_log\<close> and a custom noise floor (not \<open>None\<close>, not \<open>0.1\<close>), the
  transform replaces exactly the entries \<open>v\<close> with
  \<open>v \<ge> 0.5 * (- log(0.1 / 4096) - log(1 / 4096)) / MU_MAX\<close> by
  \<open>- log(min_photon_count / 4096) / MU_MAX\<close> and leaves the other entries as they are.
  The code does not on a batch of one sample. \<open>get_samples\<close> asks for the transform with
  \<open>num_samples = len(obs_arr)\<close>; for \<open>num_samples == 1\<close> the mask gets the shape of one
  sample, the array has a leading axis of length one, and \<open>np.greater_equal\<close> raises
  \<open>ValueError\<close>: nothing is replaced. Here \<open>min_photon_count = 0.5\<close> and the stored value
  \<open>1000\<close> is above the threshold: the transform of \<open>get_sample\<close> replaces it, the one of
  \<open>get_samples(range(1000, 1001))\<close> raises, and so does the call. The defect is the one
  of claim C2.
\<close>

theorem trafo_custom_floor_batch_of_one:
  "0.5 * (- ln (0.1 / 4096) - ln (1 / 4096)) / 81 \<le> (1000::real) \<and>
   get_observation_trafo (default_dataset\<lparr>min_photon_count := Some 0.5\<rparr>) 81 1
     (Single [1000]) = Inr (Single [- ln (0.5 / 4096) / 81]) \<and>
   get_observation_trafo (default_dataset\<lparr>min_photon_count := Some 0.5\<rparr>) 81
     (length [ [1000::real] ]) (Stacked [ [1000] ]) = Inl ValueError \<and>
   get_samples (default_dataset\<lparr>min_photon_count := Some 0.5\<rparr>) 81 example_store
     (RangeKey (Range 1000 1001 1)) Train (Some (Flag True, Flag False)) =
   ([(Observation, Train, 7)], Inl ValueError)"
proof -
  let ?ds = "default_dataset\<lparr>min_photon_count := Some 0.5\<rparr>"
  have t: "get_observation_trafo ?ds 81 1 (Single [1000]) = Inr (Single [- ln (0.5 / 4096) / 81])"
    using thres0_bounds(2)
    by (simp add: get_observation_trafo_def default_dataset_def ORIG_MIN_PHOTON_COUNT_def
          PHOTONS_PER_PIXEL_def thres0_def greater_equal_def)
  have b: "get_observation_trafo ?ds 81 (length [ [1000::real] ]) (Stacked [ [1000] ]) =
             Inl ValueError"
    using trafo_custom_floor_one_row[where ds = ?ds and c = "0.5" and MU_MAX = 81
            and row = "[1000]"]
    by (simp add: default_dataset_def)
  have g: "get_samples ?ds 81 example_store
     (RangeKey (Range 1000 1001 1)) Train (Some (Flag True, Flag False)) =
   ([(Observation, Train, 7)], Inl ValueError)"
    using read_samples_custom_floor_one[OF example_store_wf_custom, where a = 1000
            and part = Train and c = "0.5" and MU_MAX = 81 and og = "Flag False"]
    by (simp add: default_dataset_def NUM_SAMPLES_PER_FILE_def)
  show ?thesis using thres0_bounds(2) t b g by simp
qed

text \<open>
  On a buffer of the shape the mask was allocated for (one sample for
  \<open>num_samples = 1\<close>, a stack of \<open>num_samples\<close> samples otherwise), with a positive
  custom floor \<open>c\<close>, as the docstring requires for the post-log model, the transform
  does replace exactly the entries at or above the threshold by
  \<open>- log(c / 4096) / MU_MAX\<close>.
\<close>

lemma trafo_post_log_custom_floor:
  assumes "post_log ds"
    and "min_photon_count ds = Some c" and "c \<noteq> 0.1" and "0 < c" and "0 < MU_MAX"
    and "shape_of buf = (if num_samples = 1 then ElemShape else StackShape num_samples)"
  shows "get_observation_trafo ds MU_MAX num_samples buf =
           Inr (map_buffer
                  (\<lambda>v. if 0.5 * (- ln (0.1 / 4096) - ln (1 / 4096)) / MU_MAX \<le> v
                       then - ln (c / 4096) / MU_MAX else v) buf)"
  using assms
  by (simp add: get_observation_trafo_def ORIG_MIN_PHOTON_COUNT_def PHOTONS_PER_PIXEL_def
        thres0_def greater_equal_def assign_masked_map cong: if_cong)

lemma trafo_post_log_custom_floor_witness:
  "post_log (default_dataset\<lparr>min_photon_count := Some 0.5\<rparr>) \<and>
   min_photon_count (default_dataset\<lparr>min_photon_count := Some 0.5\<rparr>) = Some 0.5 \<and>
   (0.5::real) \<noteq> 0.1 \<and> (0::real) < 0.5 \<and> (0::real) < 81 \<and>
   shape_of (Single [- 1, 1000 :: real]) = (if (1::nat) = 1 then ElemShape else StackShape 1) \<and>
   get_observation_trafo (default_dataset\<lparr>min_photon_count := Some 0.5\<rparr>) 81 1
     (Single [- 1, 1000]) = Inr (Single [- 1, - ln (0.5 / 4096) / 81])"
  using trafo_post_log_custom_floor[where ds = "default_dataset\<lparr>min_photon_count := Some 0.5\<rparr>"
          and c = "0.5" and MU_MAX = 81 and buf = "Single [- 1, 1000]" and num_samples = 1]
        thres0_bounds
  by (simp add: default_dataset_def)

text \<open>
  Claim C7. Without \<open>post_log\<close> and with the default noise floor (\<open>None\<close> or
  \<open>0.1\<close>), the transform maps every stored value \<open>v\<close> to \<open>exp(- v * MU_MAX)\<close>; a
  stored \<open>0\<close> becomes \<open>1\<close>.
\<close>

theorem trafo_pre_log_default_exp:
  assumes "\<not> post_log ds"
    and "min_photon_count ds = None \<or> min_photon_count ds = Some 0.1"
  shows "get_observation_trafo ds MU_MAX num_samples buf =
           Inr (map_buffer (\<lambda>v. exp (- v * MU_MAX)) buf) \<and>
         get_observation_trafo ds MU_MAX num_samples (Single [0]) = Inr (Single [1])"
  using assms
  by (auto simp: get_observation_trafo_def ORIG_MIN_PHOTON_COUNT_def buffer.map_comp comp_def)

theorem trafo_pre_log_default_exp_witness:
  "\<not> post_log (default_dataset\<lparr>post_log := False\<rparr>) \<and>
   (min_photon_count (default_dataset\<lparr>post_log := False\<rparr>) = None \<or>
    min_photon_count (default_dataset\<lparr>post_log := False\<rparr>) = Some 0.1) \<and>
   get_observation_trafo (default_dataset\<lparr>post_log := False\<rparr>) 81 1 (Single [0, 1]) =
     Inr (Single [1, exp (- 81)])"
  using trafo_pre_log_default_exp[of "default_dataset\<lparr>post_log := False\<rparr>" 81 1 "Single [0, 1]"]
  by (simp add: default_dataset_def)

text \<open>
  Claim C8. With \<open>post_log\<close> and the default noise floor (\<open>None\<close> or \<open>0.1\<close>), the
  transform is the identity: it returns every buffer unchanged.
\<close>

theorem trafo_post_log_default_identity:
  assumes "post_log ds"
    and "min_photon_count ds = None \<or> min_photon_count ds = Some 0.1"
  shows "get_observation_trafo ds MU_MAX num_samples buf = Inr buf"
  using assms by (auto simp: get_observation_trafo_def ORIG_MIN_PHOTON_COUNT_def)

theorem trafo_post_log_default_identity_witness:
  "post_log default_dataset \<and>
   (min_photon_count default_dataset = None \<or> min_photon_count default_dataset = Some 0.1) \<and>
   get_observation_trafo default_dataset 81 2 (Stacked [ [0, 3], [5, 7] ]) = Inr (Stacked [ [0, 3], [5, 7] ])"
  using trafo_post_log_default_identity[of default_dataset 81 2 "Stacked [ [0, 3], [5, 7] ]"]
  by (simp add: default_dataset_def)

text \<open>
  Claim C9. For every configuration and every valid request, \<open>get_sample\<close> and
  \<open>get_samples\<close> return the ground truth as the shard files hold it; the transform is
  applied to the observation only. The code does not return it for a batch of one
  sample under a custom noise floor: with \<open>min_photon_count = 0.5\<close>,
  \<open>get_samples(range(1000, 1001), out=(True, True))\<close> raises \<open>ValueError\<close> in the
  transform of the observation, before the ground-truth file is opened, while the
  stored ground truth is \<open>[- 1000]\<close> and the same call for the ground truth alone
  returns it. The defect is the one of claim C2.
\<close>

theorem ground_truth_not_returned_batch_of_one:
  "get_samples (default_dataset\<lparr>min_photon_count := Some 0.5\<rparr>) 81 example_store
     (RangeKey (Range 1000 1001 1)) Train (Some (Flag True, Flag True)) =
   ([(Observation, Train, 7)], Inl ValueError) \<and>
   stored_row example_store GroundTruth Train 1000 = [- 1000] \<and>
   get_samples (default_dataset\<lparr>min_photon_count := Some 0.5\<rparr>) 81 example_store
     (RangeKey (Range 1000 1001 1)) Train (Some (Flag False, Flag True)) =
   ([(GroundTruth, Train, 7)], Inr (None, Some (Stacked [ [- 1000] ])))"
proof -
  let ?ds = "default_dataset\<lparr>min_photon_count := Some 0.5\<rparr>"
  have g: "get_samples ?ds 81 example_store
     (RangeKey (Range 1000 1001 1)) Train (Some (Flag True, Flag True)) =
   ([(Observation, Train, 7)], Inl ValueError)"
    using read_samples_custom_floor_one[OF example_store_wf_custom, where a = 1000
            and part = Train and c = "0.5" and MU_MAX = 81 and og = "Flag True"]
    by (simp add: default_dataset_def NUM_SAMPLES_PER_FILE_def)
  have sg: "stored_row example_store GroundTruth Train 1000 = [- 1000]"
    by (simp add: stored_row_def example_store_def NUM_SAMPLES_PER_FILE_def default_dataset_def)
  have last: "range_last (Range 1000 1001 1) = Inr 1000"
    by (simp add: range_last_def range_len_def)
  have k: "key_range (RangeKey (Range 1000 1001 1)) (get_len ?ds Train) = Inr (Range 1000 1001 1)"
    by (simp add: key_range_def)
  have l: "1000 < get_len ?ds Train" by (simp add: default_dataset_def)
  have "get_samples ?ds 81 example_store (RangeKey (Range 1000 1001 1)) Train
          (Some (Flag False, Flag True)) =
        read_samples ?ds 81 example_store Train (Range 1000 1001 1)
          (zip [1000 div NUM_SAMPLES_PER_FILE..1000 div NUM_SAMPLES_PER_FILE]
             (slice_loop NUM_SAMPLES_PER_FILE (Range 1000 1001 1) 1000
                (1000 div NUM_SAMPLES_PER_FILE) (1000 div NUM_SAMPLES_PER_FILE)
                [1000 div NUM_SAMPLES_PER_FILE..1000 div NUM_SAMPLES_PER_FILE] 0))
          (Flag False) (Flag True)"
    using get_samples_valid[OF k _ last l, where MU_MAX = 81 and st = example_store
            and oo = "Flag False" and og = "Flag True"] by simp
  also have "\<dots> = (case read_samples ?ds 81 example_store Train (Range 1000 1001 1)
          (zip [1000 div NUM_SAMPLES_PER_FILE..1000 div NUM_SAMPLES_PER_FILE]
             (slice_loop NUM_SAMPLES_PER_FILE (Range 1000 1001 1) 1000
                (1000 div NUM_SAMPLES_PER_FILE) (1000 div NUM_SAMPLES_PER_FILE)
                [1000 div NUM_SAMPLES_PER_FILE..1000 div NUM_SAMPLES_PER_FILE] 0))
          (Flag False) (Flag False) of
              (opened, Inl e) \<Rightarrow> (opened, Inl e)
            | (opened, Inr (obs, gt)) \<Rightarrow>
                (opened @ map (\<lambda>j. (GroundTruth, Train, j))
                            [1000 div NUM_SAMPLES_PER_FILE..1000 div NUM_SAMPLES_PER_FILE],
                 Inr (obs, Some (Stacked (map (stored_row example_store GroundTruth Train)
                                            (range_list (Range 1000 1001 1)))))))"
    by (rule read_samples_gt[OF example_store_wf_custom _ _ last l _ refl]) simp_all
  also have "\<dots> = ([(GroundTruth, Train, 7)], Inr (None, Some (Stacked [ [- 1000] ])))"
    using range_list_single[of 1000]
    by (simp add: read_samples_def sg NUM_SAMPLES_PER_FILE_def del: slice_loop.simps)
  finally show ?thesis using g sg by simp
qed

text \<open>
  Apart from that failure the ground truth is never transformed. For a dataset that is
  present, \<open>get_sample\<close> at a valid index returns the stored ground-truth row whenever
  the ground truth is requested, for every configuration. \<open>get_samples\<close> on a range with
  \<open>step \<ge> 1\<close>, \<open>start \<ge> 0\<close> and last index within the part, asked for the ground truth,
  does what the same call without the ground truth does for the observation, then opens
  the ground-truth files of the range and returns the stored rows of the range; asked
  for the ground truth alone, it returns exactly these rows.
\<close>

lemma ground_truth_as_stored:
  assumes wf: "store_wf ds st"
  shows "(- get_len ds part \<le> index \<and> index < get_len ds part \<and> og \<noteq> Flag False \<longrightarrow>
            (\<exists>obs. snd (get_sample ds MU_MAX st index part (Some (oo, og))) =
               Inr (obs, Some (Single (stored_row st GroundTruth part
                                         (if index < 0 then index + get_len ds part else index)))))) \<and>
         (key_range k (get_len ds part) = Inr rng \<and> 1 \<le> r_step rng \<and> 0 \<le> r_start rng \<and>
          range_last rng = Inr l \<and> l < get_len ds part \<and>
          (og' = Flag True \<or> (\<exists>arr. og' = Buf arr \<and> length arr = nat (range_len rng))) \<longrightarrow>
            get_samples ds MU_MAX st k part (Some (oo', og')) =
              (case get_samples ds MU_MAX st k part (Some (oo', Flag False)) of
                 (opened, Inl e) \<Rightarrow> (opened, Inl e)
               | (opened, Inr (obs, gt)) \<Rightarrow>
                   (opened @ map (\<lambda>j. (GroundTruth, part, j))
                               [r_start rng div NUM_SAMPLES_PER_FILE..l div NUM_SAMPLES_PER_FILE],
                    Inr (obs, Some (Stacked (map (stored_row st GroundTruth part)
                                               (range_list rng)))))) \<and>
            get_samples ds MU_MAX st k part (Some (Flag False, og')) =
              (map (\<lambda>j. (GroundTruth, part, j))
                 [r_start rng div NUM_SAMPLES_PER_FILE..l div NUM_SAMPLES_PER_FILE],
               Inr (None, Some (Stacked (map (stored_row st GroundTruth part) (range_list rng))))))"
proof (intro conjI impI)
  assume "- get_len ds part \<le> index \<and> index < get_len ds part \<and> og \<noteq> Flag False"
  thus "\<exists>obs. snd (get_sample ds MU_MAX st index part (Some (oo, og))) =
               Inr (obs, Some (Single (stored_row st GroundTruth part
                                         (if index < 0 then index + get_len ds part else index))))"
    using get_sample_gt[OF wf] by blast
next
  assume h: "key_range k (get_len ds part) = Inr rng \<and> 1 \<le> r_step rng \<and> 0 \<le> r_start rng \<and>
          range_last rng = Inr l \<and> l < get_len ds part \<and>
          (og' = Flag True \<or> (\<exists>arr. og' = Buf arr \<and> length arr = nat (range_len rng)))"
  obtain a b s where rng: "rng = Range a b s" by (cases rng)
  let ?plan = "zip [a div NUM_SAMPLES_PER_FILE..l div NUM_SAMPLES_PER_FILE]
              (slice_loop NUM_SAMPLES_PER_FILE (Range a b s) l
                 (a div NUM_SAMPLES_PER_FILE) (l div NUM_SAMPLES_PER_FILE)
                 [a div NUM_SAMPLES_PER_FILE..l div NUM_SAMPLES_PER_FILE] 0)"
  have s: "0 < s" "0 \<le> s" and a: "0 \<le> a" and last: "range_last (Range a b s) = Inr l"
    and l: "l < get_len ds part" and k: "key_range k (get_len ds part) = Inr (Range a b s)"
    and og: "og' = Flag True \<or> (\<exists>arr. og' = Buf arr \<and> length arr = nat (range_len (Range a b s)))"
    using h rng by auto
  have gv: "\<And>x y. get_samples ds MU_MAX st k part (Some (x, y)) =
                 read_samples ds MU_MAX st part (Range a b s) ?plan x y"
    using get_samples_valid[OF k _ last l] s(2) by simp
  have rs: "\<And>x. read_samples ds MU_MAX st part (Range a b s) ?plan x og' =
           (case read_samples ds MU_MAX st part (Range a b s) ?plan x (Flag False) of
              (opened, Inl e) \<Rightarrow> (opened, Inl e)
            | (opened, Inr (obs, gt)) \<Rightarrow>
                (opened @ map (\<lambda>j. (GroundTruth, part, j))
                            [a div NUM_SAMPLES_PER_FILE..l div NUM_SAMPLES_PER_FILE],
                 Inr (obs, Some (Stacked (map (stored_row st GroundTruth part)
                                            (range_list (Range a b s)))))))"
    using read_samples_gt[OF wf s(1) a last l og refl] by blast
  show "get_samples ds MU_MAX st k part (Some (oo', og')) =
              (case get_samples ds MU_MAX st k part (Some (oo', Flag False)) of
                 (opened, Inl e) \<Rightarrow> (opened, Inl e)
               | (opened, Inr (obs, gt)) \<Rightarrow>
                   (opened @ map (\<lambda>j. (GroundTruth, part, j))
                               [r_start rng div NUM_SAMPLES_PER_FILE..l div NUM_SAMPLES_PER_FILE],
                    Inr (obs, Some (Stacked (map (stored_row st GroundTruth part)
                                               (range_list rng))))))"
    unfolding gv rng py_range.sel by (rule rs)
  have e: "read_samples ds MU_MAX st part (Range a b s) ?plan (Flag False) (Flag False) =
          ([], Inr (None, None))"
    by (simp add: read_samples_def)
  show "get_samples ds MU_MAX st k part (Some (Flag False, og')) =
              (map (\<lambda>j. (GroundTruth, part, j))
                 [r_start rng div NUM_SAMPLES_PER_FILE..l div NUM_SAMPLES_PER_FILE],
               Inr (None, Some (Stacked (map (stored_row st GroundTruth part) (range_list rng)))))"
    unfolding gv rng py_range.sel rs[of "Flag False"] e by simp
qed

lemma ground_truth_as_stored_witness:
  "store_wf default_dataset example_store \<and>
   - get_len default_dataset Train \<le> - 1 \<and> - 1 < get_len default_dataset Train \<and>
   (Flag True :: sample out_arg) \<noteq> Flag False \<and>
   (\<exists>obs. snd (get_sample default_dataset 81 example_store (- 1) Train
                 (Some (Flag True, Flag True))) = Inr (obs, Some (Single [- 35819]))) \<and>
   key_range (RangeKey (Range 126 131 2)) (get_len default_dataset Train) = Inr (Range 126 131 2) \<and>
   (1::int) \<le> r_step (Range 126 131 2) \<and> 0 \<le> r_start (Range 126 131 2) \<and>
   range_last (Range 126 131 2) = Inr 130 \<and> 130 < get_len default_dataset Train \<and>
   get_samples default_dataset 81 example_store (RangeKey (Range 126 131 2)) Train
     (Some (Flag False, Flag True)) =
   ([(GroundTruth, Train, 0), (GroundTruth, Train, 1)],
    Inr (None, Some (Stacked [ [- 126], [- 128], [- 130] ])))"
proof -
  note T = ground_truth_as_stored[OF example_store_wf, where part = Train and index = "- 1"
          and og = "Flag True" and oo = "Flag True" and MU_MAX = 81
          and k = "RangeKey (Range 126 131 2)" and rng = "Range 126 131 2" and l = 130
          and og' = "Flag True" and oo' = "Flag False"]
  have h1: "- get_len default_dataset Train \<le> - 1 \<and> - 1 < get_len default_dataset Train \<and>
            (Flag True :: sample out_arg) \<noteq> Flag False"
    by (simp add: default_dataset_def)
  have h2: "key_range (RangeKey (Range 126 131 2)) (get_len default_dataset Train) =
              Inr (Range 126 131 2) \<and>
            1 \<le> r_step (Range 126 131 2) \<and> 0 \<le> r_start (Range 126 131 2) \<and>
            range_last (Range 126 131 2) = Inr 130 \<and> 130 < get_len default_dataset Train \<and>
            ((Flag True :: sample list out_arg) = Flag True \<or>
             (\<exists>arr. (Flag True :: sample list out_arg) = Buf arr \<and>
                    length arr = nat (range_len (Range 126 131 2))))"
    by (simp add: default_dataset_def key_range_def range_last_def range_len_def)
  have v1: "stored_row example_store GroundTruth Train
              (if (- 1 :: int) < 0 then - 1 + get_len default_dataset Train else - 1) = [- 35819]"
    by (simp add: default_dataset_def stored_row_def example_store_def NUM_SAMPLES_PER_FILE_def)
  have v2: "map (stored_row example_store GroundTruth Train) (range_list (Range 126 131 2)) =
              [ [- 126], [- 128], [- 130] ]"
    by (simp add: default_dataset_def stored_row_def example_store_def NUM_SAMPLES_PER_FILE_def
          range_list_def range_len_def upt_rec)
  have v3: "map (\<lambda>j. (GroundTruth, Train, j))
              [r_start (Range 126 131 2) div NUM_SAMPLES_PER_FILE..130 div NUM_SAMPLES_PER_FILE] =
            [(GroundTruth, Train, 0), (GroundTruth, Train, 1)]"
    by (simp add: NUM_SAMPLES_PER_FILE_def upto_rec1)
  have c1: "\<exists>obs. snd (get_sample default_dataset 81 example_store (- 1) Train
                 (Some (Flag True, Flag True))) = Inr (obs, Some (Single [- 35819]))"
    using T[THEN conjunct1, THEN mp, OF h1] unfolding v1 .
  have c2: "get_samples default_dataset 81 example_store (RangeKey (Range 126 131 2)) Train
     (Some (Flag False, Flag True)) =
   ([(GroundTruth, Train, 0), (GroundTruth, Train, 1)],
    Inr (None, Some (Stacked [ [- 126], [- 128], [- 130] ])))"
    using T[THEN conjunct2, THEN mp, OF h2, THEN conjunct2] unfolding v2 v3 .
  show ?thesis using example_store_wf h1 h2 c1 c2 by simp
qed




end
